theory Spec2Isabelle
  imports Main "HOL-Library.Word" "HOL-Library.Signed_Division"
begin

unbundle bit_operations_syntax

section \<open>The HM3301 particulate matter sensor driver (hm3301.c)\<close>

text \<open>
  The driver talks to the sensor over I2C. The model keeps the C structure:
  \<^item> \<open>u8\<close>, \<open>u16\<close> and \<open>u32\<close> are words; a C \<open>int\<close> is an \<open>int\<close>, wrapped to 32 bits
    (\<open>s32\<close>) where the arithmetic can leave the range;
  \<^item> a buffer is a list of bytes whose length is the size of the C array; a pointer that
    may be NULL is an \<open>option\<close>;
  \<^item> the I2C adapter and the sensor behind it are an \<open>i2c_client\<close>: what a transfer
    returns is a function of everything the driver has done so far (the list of events);
  \<^item> every I2C transfer, sleep and log line is appended to that list of events;
  \<^item> where C leaves the behaviour undefined (an access outside a buffer, a NULL
    dereference, a shift by a negative count or by 32 or more) the model returns \<open>None\<close>.
  The mutex of \<open>struct hm3301_state\<close> is not modelled: every function below runs with the
  lock held by its caller.
\<close>

type_synonym u8 = "8 word"
type_synonym u16 = "16 word"
type_synonym u32 = "32 word"

subsection \<open>Constants\<close>

definition HM3301_CRC8_POLYNOMIAL :: u8 where "HM3301_CRC8_POLYNOMIAL = 0x31"
definition HM3301_MAX_READ_SIZE :: nat where "HM3301_MAX_READ_SIZE = 48"
definition HM3301_MAX_PM :: int where "HM3301_MAX_PM = 3000"
definition HM3301_AUTO_CLEANING_PERIOD_MIN :: int where "HM3301_AUTO_CLEANING_PERIOD_MIN = 0"
definition HM3301_AUTO_CLEANING_PERIOD_MAX :: int where "HM3301_AUTO_CLEANING_PERIOD_MAX = 604800"

definition HM3301_START_MEAS :: u16 where "HM3301_START_MEAS = 0x0010"
definition HM3301_STOP_MEAS :: u16 where "HM3301_STOP_MEAS = 0x0104"
definition HM3301_RESET :: u16 where "HM3301_RESET = 0xd304"
definition HM3301_READ_DATA_READY_FLAG :: u16 where "HM3301_READ_DATA_READY_FLAG = 0x0202"
definition HM3301_READ_DATA :: u16 where "HM3301_READ_DATA = 0x0300"
definition HM3301_READ_SERIAL :: u16 where "HM3301_READ_SERIAL = 0xd033"
definition HM3301_START_FAN_CLEANING :: u16 where "HM3301_START_FAN_CLEANING = 0x5607"
definition HM3301_AUTO_CLEANING_PERIOD :: u16 where "HM3301_AUTO_CLEANING_PERIOD = 0x8004"
definition HM3301_READ_AUTO_CLEANING_PERIOD :: u16 where
  "HM3301_READ_AUTO_CLEANING_PERIOD = 0x8005"

text \<open>The kernel's error numbers and the initial value of \<open>linux/crc8.h\<close>.\<close>

definition EIO :: int where "EIO = 5"
definition EINVAL :: int where "EINVAL = 22"
definition ETIMEDOUT :: int where "ETIMEDOUT = 110"
definition CRC8_INIT_VALUE :: u8 where "CRC8_INIT_VALUE = 0xff"

text \<open>A C \<open>int\<close> computed in wider arithmetic, wrapped to 32 bits two's complement.\<close>

definition s32 :: "int \<Rightarrow> int" where
  "s32 x = signed_take_bit 31 x"

subsection \<open>The device state and the bus\<close>

datatype dev_state = RESET | MEASURING

datatype event =
    I2C_Send "u8 list"
  | I2C_Recv int
  | Msleep nat
  | Msleep_interruptible nat
  | Dev_err string
  | Dev_warn string

text \<open>
  \<open>i2c_master_send c h bytes\<close> is the return value of the transfer of \<open>bytes\<close> after
  the events \<open>h\<close>; \<open>i2c_master_recv c h n\<close> is the return value of a receive of \<open>n\<close>
  bytes and the bytes the adapter stored in the buffer.
\<close>

record i2c_client =
  i2c_master_send :: "event list \<Rightarrow> u8 list \<Rightarrow> int"
  i2c_master_recv :: "event list \<Rightarrow> int \<Rightarrow> int \<times> u8 list"

record hm3301_state =
  client :: i2c_client
  state :: dev_state

subsection \<open>CRC-8 (lib/crc8.c of the kernel)\<close>

text \<open>
  \<open>crc8_populate_msb\<close> fills the 256 entries in eight rounds \<open>i = 1, 2, 4, ..., 128\<close>:
  round \<open>i\<close> computes the next \<open>t\<close> and sets \<open>table[i + j] = table[j] ^ t\<close> for \<open>j < i\<close>,
  which appends to the \<open>i\<close> entries filled so far their images under \<open>^ t\<close>.
\<close>

fun crc8_populate_rounds :: "nat \<Rightarrow> u8 \<Rightarrow> u8 \<Rightarrow> u8 list \<Rightarrow> u8 list" where
  "crc8_populate_rounds 0 polynomial t table = table"
| "crc8_populate_rounds (Suc n) polynomial t table =
     (let t' = push_bit 1 t XOR (if t AND 0x80 \<noteq> 0 then polynomial else 0)
      in crc8_populate_rounds n polynomial t' (table @ map (\<lambda>x. x XOR t') table))"

definition crc8_populate_msb :: "u8 \<Rightarrow> u8 list" where
  "crc8_populate_msb polynomial = crc8_populate_rounds 8 polynomial 0x80 [0]"

primrec crc8 :: "u8 list \<Rightarrow> u8 list \<Rightarrow> u8 \<Rightarrow> u8" where
  "crc8 table [] crc = crc"
| "crc8 table (b # pdata) crc = crc8 table pdata (table ! unat (crc XOR b))"

text \<open>The table of the driver, as \<open>hm3301_probe\<close> populates it.\<close>

definition hm3301_crc8_table :: "u8 list" where
  "hm3301_crc8_table = crc8_populate_msb HM3301_CRC8_POLYNOMIAL"

subsection \<open>hm3301_write_then_read\<close>

text \<open>
  The receive buffer of every caller is either NULL or the transmit buffer itself:
  \<open>rx\<close> says which. A receive of more bytes than the buffer holds is undefined.
\<close>

definition hm3301_write_then_read ::
  "hm3301_state \<Rightarrow> event list \<Rightarrow> u8 list \<Rightarrow> int \<Rightarrow> bool \<Rightarrow> int
     \<Rightarrow> (int \<times> u8 list \<times> event list) option" where
  "hm3301_write_then_read st tr buf txsize rx rxsize =
     (let ret = i2c_master_send (client st) tr (take (nat txsize) buf);
          tr1 = tr @ [I2C_Send (take (nat txsize) buf)]
      in if ret \<noteq> txsize then Some (if ret < 0 then ret else - EIO, buf, tr1)
         else if \<not> rx then Some (0, buf, tr1)
         else if int (length buf) < rxsize then None
         else
           (let (ret, bytes) = i2c_master_recv (client st) tr1 rxsize;
                got = take (nat rxsize) bytes;
                buf1 = got @ drop (length got) buf;
                tr2 = tr1 @ [I2C_Recv rxsize]
            in if ret \<noteq> rxsize then Some (if ret < 0 then ret else - EIO, buf1, tr2)
               else Some (0, buf1, tr2)))"

subsection \<open>hm3301_do_cmd\<close>

text \<open>
  The loop that validates the received data and strips the crc bytes: \<open>i\<close> is the loop
  index, \<open>p\<close> the number of bytes already stored through \<open>data\<close>.
\<close>

function hm3301_do_cmd_strip ::
  "u8 list \<Rightarrow> int \<Rightarrow> nat \<Rightarrow> u8 list option \<Rightarrow> nat \<Rightarrow> event list
     \<Rightarrow> (int \<times> u8 list option \<times> event list) option" where
  "hm3301_do_cmd_strip buf sz i data p tr =
     (if int i < sz then
        (if length buf \<le> i + 2 then None
         else if crc8 hm3301_crc8_table [buf ! i, buf ! (i + 1)] CRC8_INIT_VALUE \<noteq> buf ! (i + 2)
           then Some (- EIO, data, tr @ [Dev_err ''data integrity check failed''])
         else
           (case data of
              None \<Rightarrow> None
            | Some d \<Rightarrow>
                if length d \<le> p + 1 then None
                else hm3301_do_cmd_strip buf sz (i + 3)
                       (Some (d[p := buf ! i, p + 1 := buf ! (i + 1)])) (p + 2) tr))
      else Some (0, data, tr))"
  by pat_completeness auto
termination
  by (relation "measure (\<lambda>(buf, sz, i, data, p, tr). length buf - i)") auto

text \<open>
  The \<open>switch\<close>: it fills the frame buffer, runs the transfer and, for a read command,
  inflates \<open>size\<close>. The result is \<open>ret\<close>, the buffer, \<open>size\<close> and the events.
\<close>

definition hm3301_do_cmd_switch ::
  "hm3301_state \<Rightarrow> event list \<Rightarrow> u16 \<Rightarrow> u8 list option \<Rightarrow> int
     \<Rightarrow> (int \<times> u8 list \<times> int \<times> event list) option" where
  "hm3301_do_cmd_switch st tr cmd data sz =
     (let buf = [ucast (drop_bit 8 cmd), ucast cmd] @ replicate (HM3301_MAX_READ_SIZE - 2) 0
      in if cmd = HM3301_START_MEAS then
           (let buf1 = buf[2 := 0x03, 3 := 0x00];
                buf2 = buf1[4 := crc8 hm3301_crc8_table [buf1 ! 2, buf1 ! 3] CRC8_INIT_VALUE]
            in map_option (\<lambda>(ret, b, t). (ret, b, sz, t))
                 (hm3301_write_then_read st tr buf2 5 False 0))
         else if cmd = HM3301_STOP_MEAS \<or> cmd = HM3301_RESET \<or> cmd = HM3301_START_FAN_CLEANING then
           map_option (\<lambda>(ret, b, t). (ret, b, sz, t))
             (hm3301_write_then_read st tr buf 2 False 0)
         else if cmd = HM3301_READ_AUTO_CLEANING_PERIOD \<or> cmd = HM3301_READ_DATA_READY_FLAG
                 \<or> cmd = HM3301_READ_DATA \<or> cmd = HM3301_READ_SERIAL then
           (let buf1 = (if cmd = HM3301_READ_AUTO_CLEANING_PERIOD
                        then buf[0 := ucast (drop_bit 8 HM3301_AUTO_CLEANING_PERIOD),
                                 1 := ucast (HM3301_AUTO_CLEANING_PERIOD AND 0xff)]
                        else buf);
                sz1 = s32 (sz + sz sdiv 2)
            in map_option (\<lambda>(ret, b, t). (ret, b, sz1, t))
                 (hm3301_write_then_read st tr buf1 2 True sz1))
         else if cmd = HM3301_AUTO_CLEANING_PERIOD then
           (case data of
              None \<Rightarrow> None
            | Some d \<Rightarrow>
                if length d < 4 then None
                else
                  (let buf1 = buf[2 := d ! 0, 3 := d ! 1];
                       buf2 = buf1[4 := crc8 hm3301_crc8_table [buf1 ! 2, buf1 ! 3] CRC8_INIT_VALUE];
                       buf3 = buf2[5 := d ! 2, 6 := d ! 3];
                       buf4 = buf3[7 := crc8 hm3301_crc8_table [buf3 ! 5, buf3 ! 6] CRC8_INIT_VALUE]
                   in map_option (\<lambda>(ret, b, t). (ret, b, sz, t))
                        (hm3301_write_then_read st tr buf4 8 False 0)))
         else Some (0, buf, sz, tr))"

definition hm3301_do_cmd ::
  "hm3301_state \<Rightarrow> event list \<Rightarrow> u16 \<Rightarrow> u8 list option \<Rightarrow> int
     \<Rightarrow> (int \<times> u8 list option \<times> event list) option" where
  "hm3301_do_cmd st tr cmd data sz =
     (case hm3301_do_cmd_switch st tr cmd data sz of
        None \<Rightarrow> None
      | Some (ret, buf, sz1, tr1) \<Rightarrow>
          if ret \<noteq> 0 then Some (ret, data, tr1)
          else hm3301_do_cmd_strip buf sz1 0 data 0 tr1)"

subsection \<open>hm3301_float_to_int_clamped\<close>

text \<open>
  The kernel's big-endian accessors, and the two C operators whose behaviour is undefined
  for some operands: a shift of a 32-bit \<open>int\<close> is defined for a count from 0 to 31 only
  (\<open>>>\<close> of a negative value is an arithmetic shift, as gcc compiles it), and
  \<open>GENMASK(h, l)\<close> shifts by \<open>BITS_PER_LONG - 1 - h\<close>.
\<close>

definition get_unaligned_be32 :: "u8 list \<Rightarrow> u32" where
  "get_unaligned_be32 p =
     push_bit 24 (ucast (p ! 0)) OR push_bit 16 (ucast (p ! 1))
       OR push_bit 8 (ucast (p ! 2)) OR ucast (p ! 3)"

definition put_unaligned_be32 :: "u32 \<Rightarrow> u8 list" where
  "put_unaligned_be32 val =
     [ucast (drop_bit 24 val), ucast (drop_bit 16 val), ucast (drop_bit 8 val), ucast val]"

definition c_shr :: "int \<Rightarrow> int \<Rightarrow> int option" where
  "c_shr x n = (if 0 \<le> n \<and> n < 32 then Some (drop_bit (nat n) x) else None)"

definition c_shl :: "int \<Rightarrow> int \<Rightarrow> int option" where
  "c_shl x n = (if 0 \<le> n \<and> n < 32 then Some (s32 (push_bit (nat n) x)) else None)"

definition GENMASK :: "int \<Rightarrow> int \<Rightarrow> int option" where
  "GENMASK h l =
     (if 0 \<le> l \<and> l < 32 \<and> 0 \<le> h \<and> h < 32
      then Some (mask (nat h + 1) AND NOT (mask (nat l))) else None)"

definition hm3301_float_to_int_clamped :: "u8 list \<Rightarrow> int option" where
  "hm3301_float_to_int_clamped fp =
     (if length fp < 4 then None
      else
        (let val = sint (get_unaligned_be32 fp);
             mantissa = val AND mask 23;
             exp = drop_bit 23 val
         in if exp = 0 \<and> mantissa = 0 then Some 0
            else
              (let exp1 = exp - 127
               in if exp1 < 0 then
                    c_shr (drop_bit 23 ((push_bit 23 1 + mantissa) * 100)) (- exp1)
                  else
                    (let shift = 23 - exp1
                     in case (c_shl 1 exp1, c_shr mantissa shift) of
                          (Some a, Some b) \<Rightarrow>
                            (let val1 = a + b
                             in if val1 \<ge> HM3301_MAX_PM then Some (HM3301_MAX_PM * 100)
                                else
                                  (case GENMASK (shift - 1) 0 of
                                     None \<Rightarrow> None
                                   | Some m \<Rightarrow>
                                       (let fraction = mantissa AND m
                                        in map_option (\<lambda>q. val1 * 100 + q)
                                             (c_shr (fraction * 100) shift))))
                        | _ \<Rightarrow> None))))"

subsection \<open>hm3301_do_meas\<close>

text \<open>
  The polling loop \<open>while (tries--)\<close>, for \<open>tries\<close> from 5 down: \<open>Inl ret\<close> is a
  \<open>return ret\<close> from inside the loop, \<open>Inr tries\<close> the value of \<open>tries\<close> when the loop
  is left.
\<close>

fun hm3301_do_meas_poll ::
  "hm3301_state \<Rightarrow> nat \<Rightarrow> u8 list \<Rightarrow> event list
     \<Rightarrow> ((int + int) \<times> u8 list \<times> event list) option" where
  "hm3301_do_meas_poll st 0 tmp tr = Some (Inr (- 1), tmp, tr)"
| "hm3301_do_meas_poll st (Suc n) tmp tr =
     (case hm3301_do_cmd st tr HM3301_READ_DATA_READY_FLAG (Some tmp) 2 of
        None \<Rightarrow> None
      | Some (ret, None, tr1) \<Rightarrow> None
      | Some (ret, Some tmp1, tr1) \<Rightarrow>
          if ret \<noteq> 0 then Some (Inl (- EIO), tmp1, tr1)
          else if tmp1 ! 1 = 1 then Some (Inr (int n), tmp1, tr1)
          else hm3301_do_meas_poll st n tmp1 (tr1 @ [Msleep_interruptible 300]))"

text \<open>The loop \<open>data[i] = hm3301_float_to_int_clamped(&tmp[4 * i])\<close>.\<close>

function hm3301_do_meas_convert :: "u8 list \<Rightarrow> int list \<Rightarrow> int \<Rightarrow> nat \<Rightarrow> int list option" where
  "hm3301_do_meas_convert tmp data sz i =
     (if int i < sz then
        (if length data \<le> i then None
         else
           (case hm3301_float_to_int_clamped (drop (4 * i) tmp) of
              None \<Rightarrow> None
            | Some v \<Rightarrow> hm3301_do_meas_convert tmp (data[i := v]) sz (i + 1)))
      else Some data)"
  by pat_completeness auto
termination
  by (relation "measure (\<lambda>(tmp, data, sz, i). length data - i)") auto

text \<open>
  The function after the start of the measurements: the polling loop, the read of the
  data and the conversion. It does not change the device state. \<open>tmp\<close> is not
  initialised in C; every byte of it that is read has been stored by \<open>hm3301_do_cmd\<close>
  before. \<open>sizeof(int) * size\<close> is computed in \<open>size_t\<close> and converted to \<open>int\<close>.
\<close>

definition hm3301_do_meas_read ::
  "hm3301_state \<Rightarrow> event list \<Rightarrow> int list \<Rightarrow> int \<Rightarrow> (int \<times> int list \<times> event list) option" where
  "hm3301_do_meas_read st tr data sz =
     (case hm3301_do_meas_poll st 5 (replicate 16 0) tr of
        None \<Rightarrow> None
      | Some (Inl ret, tmp, tr2) \<Rightarrow> Some (ret, data, tr2)
      | Some (Inr tries, tmp, tr2) \<Rightarrow>
          if tries = - 1 then Some (- ETIMEDOUT, data, tr2)
          else
            (case hm3301_do_cmd st tr2 HM3301_READ_DATA (Some tmp) (s32 (4 * sz)) of
               None \<Rightarrow> None
             | Some (ret, None, tr3) \<Rightarrow> None
             | Some (ret, Some tmp1, tr3) \<Rightarrow>
                 if ret \<noteq> 0 then Some (ret, data, tr3)
                 else map_option (\<lambda>data1. (0, data1, tr3))
                        (hm3301_do_meas_convert tmp1 data sz 0)))"

definition hm3301_do_meas ::
  "hm3301_state \<Rightarrow> event list \<Rightarrow> int list \<Rightarrow> int
     \<Rightarrow> (int \<times> int list \<times> hm3301_state \<times> event list) option" where
  "hm3301_do_meas st tr data sz =
     (if state st = RESET then
        (case hm3301_do_cmd st tr HM3301_START_MEAS None 0 of
           None \<Rightarrow> None
         | Some (ret, _, tr1) \<Rightarrow>
             if ret \<noteq> 0 then Some (ret, data, st, tr1)
             else map_option (\<lambda>(ret, data1, tr2). (ret, data1, st\<lparr>state := MEASURING\<rparr>, tr2))
                    (hm3301_do_meas_read (st\<lparr>state := MEASURING\<rparr>) tr1 data sz))
      else map_option (\<lambda>(ret, data1, tr2). (ret, data1, st, tr2))
             (hm3301_do_meas_read st tr data sz))"

subsection \<open>hm3301_do_cmd_reset and the sysfs attributes\<close>

definition hm3301_do_cmd_reset ::
  "hm3301_state \<Rightarrow> event list \<Rightarrow> (int \<times> hm3301_state \<times> event list) option" where
  "hm3301_do_cmd_reset st tr =
     (case hm3301_do_cmd st tr HM3301_RESET None 0 of
        None \<Rightarrow> None
      | Some (ret, _, tr1) \<Rightarrow>
          (case hm3301_do_cmd st (tr1 @ [Msleep 300]) HM3301_STOP_MEAS None 0 of
             None \<Rightarrow> None
           | Some (_, _, tr2) \<Rightarrow> Some (ret, st\<lparr>state := RESET\<rparr>, tr2)))"

text \<open>
  The attribute functions take what \<open>kstrtoint(buf, 0, &val)\<close> made of the text written
  (\<open>None\<close> when it fails) and \<open>len\<close>. \<open>cleaning_period_show\<close> returns the number that
  \<open>sprintf\<close> prints with \<open>%d\<close> (\<open>Inr\<close>) or the error (\<open>Inl\<close>).
\<close>

definition start_cleaning_store ::
  "hm3301_state \<Rightarrow> event list \<Rightarrow> int option \<Rightarrow> int \<Rightarrow> (int \<times> event list) option" where
  "start_cleaning_store st tr kstrtoint len =
     (case kstrtoint of
        None \<Rightarrow> Some (- EINVAL, tr)
      | Some val \<Rightarrow>
          if val \<noteq> 1 then Some (- EINVAL, tr)
          else
            (case hm3301_do_cmd st tr HM3301_START_FAN_CLEANING None 0 of
               None \<Rightarrow> None
             | Some (ret, _, tr1) \<Rightarrow> if ret \<noteq> 0 then Some (ret, tr1) else Some (len, tr1)))"

definition cleaning_period_show ::
  "hm3301_state \<Rightarrow> event list \<Rightarrow> ((int + int) \<times> event list) option" where
  "cleaning_period_show st tr =
     (case hm3301_do_cmd st tr HM3301_READ_AUTO_CLEANING_PERIOD (Some (replicate 4 0)) 4 of
        None \<Rightarrow> None
      | Some (ret, None, tr1) \<Rightarrow> None
      | Some (ret, Some tmp, tr1) \<Rightarrow>
          if ret \<noteq> 0 then Some (Inl ret, tr1)
          else Some (Inr (sint (get_unaligned_be32 tmp)), tr1))"

definition cleaning_period_store ::
  "hm3301_state \<Rightarrow> event list \<Rightarrow> int option \<Rightarrow> int
     \<Rightarrow> (int \<times> hm3301_state \<times> event list) option" where
  "cleaning_period_store st tr kstrtoint len =
     (case kstrtoint of
        None \<Rightarrow> Some (- EINVAL, st, tr)
      | Some val \<Rightarrow>
          if val < HM3301_AUTO_CLEANING_PERIOD_MIN \<or> val > HM3301_AUTO_CLEANING_PERIOD_MAX
          then Some (- EINVAL, st, tr)
          else
            (case hm3301_do_cmd st tr HM3301_AUTO_CLEANING_PERIOD
                    (Some (put_unaligned_be32 (word_of_int val))) 0 of
               None \<Rightarrow> None
             | Some (ret, _, tr1) \<Rightarrow>
                 if ret \<noteq> 0 then Some (ret, st, tr1)
                 else
                   (case hm3301_do_cmd_reset st (tr1 @ [Msleep 20]) of
                      None \<Rightarrow> None
                    | Some (ret1, st1, tr2) \<Rightarrow>
                        Some (len, st1,
                          if ret1 \<noteq> 0
                          then tr2 @ [Dev_warn ''period changed but reads will return the old value'']
                          else tr2))))"

section \<open>Vocabulary of the properties\<close>

text \<open>
  The definitions of this section are not code of the driver: they name what the
  properties below talk about.
\<close>

text \<open>The commands that read a response, and the two bytes their frame starts with.\<close>

definition read_cmd :: "u16 \<Rightarrow> bool" where
  "read_cmd cmd \<longleftrightarrow> cmd = HM3301_READ_DATA_READY_FLAG \<or> cmd = HM3301_READ_DATA
     \<or> cmd = HM3301_READ_SERIAL \<or> cmd = HM3301_READ_AUTO_CLEANING_PERIOD"

definition cmd_code :: "u16 \<Rightarrow> u8 list" where
  "cmd_code cmd =
     (if cmd = HM3301_READ_AUTO_CLEANING_PERIOD then [0x80, 0x04]
      else [ucast (drop_bit 8 cmd), ucast cmd])"

text \<open>The commands that only write.\<close>

definition write_cmd :: "u16 \<Rightarrow> bool" where
  "write_cmd cmd \<longleftrightarrow> cmd = HM3301_START_MEAS \<or> cmd = HM3301_STOP_MEAS \<or> cmd = HM3301_RESET
     \<or> cmd = HM3301_START_FAN_CLEANING \<or> cmd = HM3301_AUTO_CLEANING_PERIOD"

text \<open>What \<open>hm3301_write_then_read\<close> makes of the return value of a transfer of \<open>n\<close> bytes.\<close>

definition i2c_status :: "int \<Rightarrow> int \<Rightarrow> int" where
  "i2c_status ret n = (if ret = n then 0 else if ret < 0 then ret else - EIO)"

text \<open>The frame buffer after a receive of \<open>n\<close> bytes that stored \<open>bytes\<close>.\<close>

definition rx_buf :: "u8 list \<Rightarrow> int \<Rightarrow> u8 list \<Rightarrow> u8 list" where
  "rx_buf buf n bytes = take (nat n) bytes @ drop (length (take (nat n) bytes)) buf"

text \<open>
  Group \<open>g\<close> of a response is the bytes \<open>3 g\<close>, \<open>3 g + 1\<close> (data) and \<open>3 g + 2\<close>
  (checksum). \<open>group_ok\<close>: the checksum of group \<open>g\<close> is right. \<open>groups_data raw j n\<close>:
  the data bytes of the groups \<open>j\<close> to \<open>n - 1\<close>, in order.
\<close>

definition group_ok :: "u8 list \<Rightarrow> nat \<Rightarrow> bool" where
  "group_ok raw g \<longleftrightarrow>
     crc8 hm3301_crc8_table [raw ! (3 * g), raw ! (3 * g + 1)] CRC8_INIT_VALUE = raw ! (3 * g + 2)"

definition groups_data :: "u8 list \<Rightarrow> nat \<Rightarrow> nat \<Rightarrow> u8 list" where
  "groups_data raw j n = concat (map (\<lambda>g. [raw ! (3 * g), raw ! (3 * g + 1)]) [j..<n])"

text \<open>What the sensor sends for the data bytes \<open>d\<close>: every two bytes and their checksum.\<close>

fun checksummed :: "u8 list \<Rightarrow> u8 list" where
  "checksummed (a # b # rest) =
     a # b # crc8 hm3301_crc8_table [a, b] CRC8_INIT_VALUE # checksummed rest"
| "checksummed rest = []"

text \<open>
  A simulated transport: it acknowledges every transfer in full and answers a receive of
  \<open>n\<close> bytes with \<open>resp n\<close>.
\<close>

definition sim_client :: "(int \<Rightarrow> u8 list) \<Rightarrow> i2c_client" where
  "sim_client resp =
     \<lparr>i2c_master_send = (\<lambda>h bytes. int (length bytes)), i2c_master_recv = (\<lambda>h n. (n, resp n))\<rparr>"

text \<open>The frames of \<open>HM3301_START_MEAS\<close> and of \<open>HM3301_AUTO_CLEANING_PERIOD\<close> with the four bytes \<open>d\<close>.\<close>

definition start_frame :: "u8 list" where
  "start_frame = [0x00, 0x10, 0x03, 0x00, 0xAC]"

definition period_frame :: "u8 list \<Rightarrow> u8 list" where
  "period_frame d = [0x80, 0x04] @ checksummed (take 4 d)"

text \<open>A transport on which every transfer fails with \<open>-ENXIO\<close>.\<close>

definition dead_client :: i2c_client where
  "dead_client = \<lparr>i2c_master_send = (\<lambda>h bytes. - 6), i2c_master_recv = (\<lambda>h n. (- 6, []))\<rparr>"

text \<open>The events of one poll of the ready flag that finds it not set.\<close>

definition poll_events :: "event list" where
  "poll_events = [I2C_Send [0x02, 0x02], I2C_Recv 3, Msleep_interruptible 300]"

text \<open>
  The 16 data bytes of a measurement of 12.34, 0.0, 3500.0 and 45.6: the single-precision
  numbers nearest to them are \<open>0x414570A4\<close>, \<open>0x00000000\<close>, \<open>0x455AC000\<close> and
  \<open>0x42366666\<close>. \<open>nearest_single fp c\<close>: the bytes \<open>fp\<close> are a single-precision number
  \<open>m * 2 ^ (e - 150)\<close> of at least 1 within half a unit in the last place of \<open>c / 100\<close>.
\<close>

definition pm_floats :: "u8 list" where
  "pm_floats = [0x41, 0x45, 0x70, 0xA4,  0x00, 0x00, 0x00, 0x00,
                0x45, 0x5A, 0xC0, 0x00,  0x42, 0x36, 0x66, 0x66]"

definition nearest_single :: "u8 list \<Rightarrow> int \<Rightarrow> bool" where
  "nearest_single fp c \<longleftrightarrow>
     (let w = uint (get_unaligned_be32 fp); m = 2 ^ 23 + w mod 2 ^ 23; e = w div 2 ^ 23
      in 127 \<le> e \<and> e \<le> 150 \<and> \<bar>100 * m - c * 2 ^ nat (150 - e)\<bar> \<le> 50)"

text \<open>
  The four bytes of a float as a number, its mantissa (bits 22 to 0) and its exponent
  (the bits above, less the bias 127); for an exponent from 0 to 23, the integer part
  \<open>(1 << e) + (mantissa >> (23 - e))\<close> and the hundredths that the remaining bits of the
  mantissa make.
\<close>

definition float_bits :: "u8 list \<Rightarrow> int" where
  "float_bits fp = uint (get_unaligned_be32 fp)"

definition float_mantissa :: "u8 list \<Rightarrow> int" where
  "float_mantissa fp = float_bits fp mod 2 ^ 23"

definition float_exp :: "u8 list \<Rightarrow> int" where
  "float_exp fp = float_bits fp div 2 ^ 23 - 127"

definition float_int_part :: "u8 list \<Rightarrow> int" where
  "float_int_part fp =
     2 ^ nat (float_exp fp) + float_mantissa fp div 2 ^ nat (23 - float_exp fp)"

definition float_hundredths :: "u8 list \<Rightarrow> int" where
  "float_hundredths fp =
     ((float_mantissa fp mod 2 ^ nat (23 - float_exp fp)) * 100) div 2 ^ nat (23 - float_exp fp)"

text \<open>
  The decoder as x86-64 and arm64 execute it, where C leaves a shift undefined: a shift
  of a 32-bit \<open>int\<close> takes its count modulo 32, the shift of the \<open>unsigned long\<close> in
  \<open>GENMASK\<close> takes it modulo 64, and \<open>int\<close> arithmetic wraps (the kernel is built with
  \<open>-fno-strict-overflow\<close>). It is the body of \<open>hm3301_float_to_int_clamped\<close> with these
  shifts in the place of \<open>c_shr\<close>, \<open>c_shl\<close> and \<open>GENMASK\<close>.
\<close>

definition hm3301_float_to_int_clamped_masked :: "u8 list \<Rightarrow> int option" where
  "hm3301_float_to_int_clamped_masked fp =
     (if length fp < 4 then None
      else
        (let val = sint (get_unaligned_be32 fp);
             mantissa = val AND mask 23;
             exp = drop_bit 23 val
         in if exp = 0 \<and> mantissa = 0 then Some 0
            else
              (let exp1 = exp - 127
               in if exp1 < 0 then
                    Some (drop_bit (nat ((- exp1) mod 32))
                            (drop_bit 23 ((push_bit 23 1 + mantissa) * 100)))
                  else
                    (let shift = 23 - exp1;
                         val1 = s32 (s32 (push_bit (nat (exp1 mod 32)) 1)
                                       + drop_bit (nat (shift mod 32)) mantissa)
                     in if val1 \<ge> HM3301_MAX_PM then Some (HM3301_MAX_PM * 100)
                        else
                          (let fraction =
                                 mantissa AND drop_bit (nat ((63 - (shift - 1)) mod 64)) (mask 64)
                           in Some (s32 (s32 (val1 * 100)
                                + drop_bit (nat (shift mod 32)) (s32 (fraction * 100)))))))))"

section \<open>Lemmas on the command dispatch\<close>

declare hm3301_do_cmd_strip.simps [simp del]

lemmas cmd_defs = HM3301_START_MEAS_def HM3301_STOP_MEAS_def HM3301_RESET_def
  HM3301_READ_DATA_READY_FLAG_def HM3301_READ_DATA_def HM3301_READ_SERIAL_def
  HM3301_START_FAN_CLEANING_def HM3301_AUTO_CLEANING_PERIOD_def
  HM3301_READ_AUTO_CLEANING_PERIOD_def

lemma s32_small: "- 2147483648 \<le> x \<Longrightarrow> x < 2147483648 \<Longrightarrow> s32 x = x"
  by (simp add: s32_def signed_take_bit_int_eq_self)

lemma i2c_status_0: "i2c_status r n = 0 \<longleftrightarrow> r = n"
  by (simp add: i2c_status_def EIO_def)

lemma length_cmd_code: "length (cmd_code cmd) = 2"
  by (simp add: cmd_code_def)

lemma crc8_start: "crc8 hm3301_crc8_table [0x03, 0x00] CRC8_INIT_VALUE = 0xAC"
  by code_simp

lemma crc8_zero: "crc8 hm3301_crc8_table [0x00, 0x00] CRC8_INIT_VALUE = 0x81"
  by code_simp

declare crc8.simps [simp del]

subsection \<open>The validation loop\<close>

lemma strip_done:
  "\<not> int i < sz \<Longrightarrow> hm3301_do_cmd_strip buf sz i data p tr = Some (0, data, tr)"
  by (subst hm3301_do_cmd_strip.simps) simp

lemma strip_bad:
  "int i < sz \<Longrightarrow> i + 2 < length buf \<Longrightarrow>
   crc8 hm3301_crc8_table [buf ! i, buf ! (i + 1)] CRC8_INIT_VALUE \<noteq> buf ! (i + 2) \<Longrightarrow>
   hm3301_do_cmd_strip buf sz i data p tr =
     Some (- EIO, data, tr @ [Dev_err ''data integrity check failed''])"
  by (subst hm3301_do_cmd_strip.simps) simp

lemma strip_ok:
  "int i < sz \<Longrightarrow> i + 2 < length buf \<Longrightarrow>
   crc8 hm3301_crc8_table [buf ! i, buf ! (i + 1)] CRC8_INIT_VALUE = buf ! (i + 2) \<Longrightarrow>
   p + 1 < length d \<Longrightarrow>
   hm3301_do_cmd_strip buf sz i (Some d) p tr =
     hm3301_do_cmd_strip buf sz (i + 3) (Some (d[p := buf ! i, p + 1 := buf ! (i + 1)])) (p + 2) tr"
  by (subst hm3301_do_cmd_strip.simps) simp

text \<open>
  The loop from group \<open>j\<close> on: it stops at the first group whose checksum is wrong, and
  has stored the data of the groups before it.
\<close>

lemma strip_loop:
  assumes "3 * n \<le> length buf" "2 * n \<le> length d" "j \<le> n"
  shows "hm3301_do_cmd_strip buf (int (3 * n)) (3 * j) (Some d) (2 * j) tr =
    (case find (\<lambda>g. \<not> group_ok buf g) [j..<n] of
       None \<Rightarrow> Some (0, Some (take (2 * j) d @ groups_data buf j n @ drop (2 * n) d), tr)
     | Some k \<Rightarrow> Some (- EIO, Some (take (2 * j) d @ groups_data buf j k @ drop (2 * k) d),
                   tr @ [Dev_err ''data integrity check failed'']))"
  using assms
proof (induction "n - j" arbitrary: j d)
  case 0
  then have "j = n" by simp
  then show ?case
    by (simp add: strip_done groups_data_def)
next
  case (Suc m)
  then have jn: "j < n" by simp
  have upt: "[j..<n] = j # [Suc j..<n]" using jn by (simp add: upt_conv_Cons)
  show ?case
  proof (cases "group_ok buf j")
    case False
    then show ?thesis using jn Suc.prems
      by (simp add: strip_bad upt group_ok_def groups_data_def)
  next
    case True
    let ?d = "d[2 * j := buf ! (3 * j), 2 * j + 1 := buf ! (3 * j + 1)]"
    have step: "hm3301_do_cmd_strip buf (int (3 * n)) (3 * j) (Some d) (2 * j) tr =
                hm3301_do_cmd_strip buf (int (3 * n)) (3 * Suc j) (Some ?d) (2 * Suc j) tr"
      using True jn Suc.prems strip_ok [of "3 * j" "int (3 * n)" buf "2 * j" d tr]
      by (simp add: group_ok_def add.commute)
    have ih: "hm3301_do_cmd_strip buf (int (3 * n)) (3 * Suc j) (Some ?d) (2 * Suc j) tr =
      (case find (\<lambda>g. \<not> group_ok buf g) [Suc j..<n] of
         None \<Rightarrow> Some (0, Some (take (2 * Suc j) ?d @ groups_data buf (Suc j) n @ drop (2 * n) ?d), tr)
       | Some k \<Rightarrow> Some (- EIO, Some (take (2 * Suc j) ?d @ groups_data buf (Suc j) k @ drop (2 * k) ?d),
                   tr @ [Dev_err ''data integrity check failed'']))"
      using Suc.hyps(2) Suc.prems jn by (intro Suc.hyps(1)) auto
    have tk: "take (2 * Suc j) ?d = take (2 * j) d @ [buf ! (3 * j), buf ! (3 * j + 1)]"
      using jn Suc.prems by (simp add: take_Suc_conv_app_nth)
    have dr: "\<And>k. j < k \<Longrightarrow> drop (2 * k) ?d = drop (2 * k) d"
      by simp
    have gd: "\<And>k. j < k \<Longrightarrow>
        groups_data buf j k = [buf ! (3 * j), buf ! (3 * j + 1)] @ groups_data buf (Suc j) k"
      by (simp add: groups_data_def upt_conv_Cons)
    have fk: "\<And>k. find (\<lambda>g. \<not> group_ok buf g) [Suc j..<n] = Some k \<Longrightarrow> j < k"
      by (auto simp: find_Some_iff)
    have res: "find (\<lambda>g. \<not> group_ok buf g) [j..<n] = find (\<lambda>g. \<not> group_ok buf g) [Suc j..<n]"
      using True by (simp add: upt)
    show ?thesis
    proof (cases "find (\<lambda>g. \<not> group_ok buf g) [Suc j..<n]")
      case None
      show ?thesis
        unfolding step ih res None
        by (simp only: option.case tk dr [OF jn] gd [OF jn] append_assoc append_Cons append_Nil)
    next
      case (Some k)
      then have jk: "j < k" by (rule fk)
      show ?thesis
        unfolding step ih res Some
        by (simp only: option.case tk dr [OF jk] gd [OF jk] append_assoc append_Cons append_Nil)
    qed
  qed
qed

lemma group_ok_append: "3 * g + 2 < length raw \<Longrightarrow> group_ok (raw @ rest) g = group_ok raw g"
  by (simp add: group_ok_def nth_append)

lemma groups_data_append:
  "3 * k \<le> length raw \<Longrightarrow> groups_data (raw @ rest) j k = groups_data raw j k"
  unfolding groups_data_def
  by (intro arg_cong [where f = concat] map_cong refl) (auto simp: nth_append)

lemma find_first_bad_append:
  assumes "3 * n \<le> length raw"
  shows "find (\<lambda>g. \<not> group_ok (raw @ rest) g) [0..<n] = find (\<lambda>g. \<not> group_ok raw g) [0..<n]"
  using assms by (intro find_cong refl) (auto simp: group_ok_append)

lemma find_upt_less: "find P [0..<n] = Some k \<Longrightarrow> k < n"
  by (auto simp: find_Some_iff)

subsection \<open>The switch\<close>

lemma wtr_tx:
  "hm3301_write_then_read st tr buf txsize False rxsize =
     Some (i2c_status (i2c_master_send (client st) tr (take (nat txsize) buf)) txsize, buf,
           tr @ [I2C_Send (take (nat txsize) buf)])"
  by (simp add: hm3301_write_then_read_def i2c_status_def Let_def)

lemma wtr_rx:
  assumes "rxsize \<le> int (length buf)"
  shows "hm3301_write_then_read st tr buf txsize True rxsize =
    (let tx = take (nat txsize) buf; r = i2c_master_send (client st) tr tx in
     if r \<noteq> txsize then Some (i2c_status r txsize, buf, tr @ [I2C_Send tx])
     else
       (let rr = i2c_master_recv (client st) (tr @ [I2C_Send tx]) rxsize in
        Some (i2c_status (fst rr) rxsize, rx_buf buf rxsize (snd rr),
              tr @ [I2C_Send tx, I2C_Recv rxsize])))"
  using assms
  by (simp add: hm3301_write_then_read_def i2c_status_def rx_buf_def Let_def split: prod.splits)

lemma switch_read:
  assumes "read_cmd cmd" "0 \<le> sz" "sz + sz div 2 \<le> 48"
  shows "hm3301_do_cmd_switch st tr cmd data sz =
     map_option (\<lambda>(ret, b, t). (ret, b, sz + sz div 2, t))
       (hm3301_write_then_read st tr (cmd_code cmd @ replicate 46 0) 2 True (sz + sz div 2))"
proof -
  have sd: "sz sdiv 2 = sz div 2" using assms(2) by (simp add: signed_divide_int_def sgn_if)
  have s: "s32 (sz + sz div 2) = sz + sz div 2" using assms by (intro s32_small) auto
  show ?thesis
    using assms(1)
    by (auto simp: read_cmd_def hm3301_do_cmd_switch_def cmd_code_def Let_def sd s cmd_defs
        HM3301_MAX_READ_SIZE_def)
qed

lemma do_cmd_read:
  assumes "read_cmd cmd" "0 \<le> sz" "sz + sz div 2 \<le> 48"
  shows "hm3301_do_cmd st tr cmd data sz =
    (let r = i2c_master_send (client st) tr (cmd_code cmd);
         n = sz + sz div 2 in
     if r \<noteq> 2 then Some (i2c_status r 2, data, tr @ [I2C_Send (cmd_code cmd)])
     else
       (let rr = i2c_master_recv (client st) (tr @ [I2C_Send (cmd_code cmd)]) n;
            tr2 = tr @ [I2C_Send (cmd_code cmd), I2C_Recv n] in
        if fst rr \<noteq> n then Some (i2c_status (fst rr) n, data, tr2)
        else hm3301_do_cmd_strip (rx_buf (cmd_code cmd @ replicate 46 0) n (snd rr)) n 0 data 0 tr2))"
  using assms(3)
  by (simp add: hm3301_do_cmd_def switch_read [OF assms] wtr_rx length_cmd_code Let_def i2c_status_0)

lemma frame_buf: "replicate 46 x = x # x # x # x # x # x # replicate 40 x"
  by (simp add: numeral_eq_Suc)

lemma do_cmd_plain:
  assumes "cmd = HM3301_STOP_MEAS \<or> cmd = HM3301_RESET \<or> cmd = HM3301_START_FAN_CLEANING" "sz \<le> 0"
  shows "hm3301_do_cmd st tr cmd data sz =
     Some (i2c_status (i2c_master_send (client st) tr (cmd_code cmd)) 2, data,
           tr @ [I2C_Send (cmd_code cmd)])"
  using assms
  by (auto simp: hm3301_do_cmd_def hm3301_do_cmd_switch_def wtr_tx cmd_code_def cmd_defs
      HM3301_MAX_READ_SIZE_def strip_done i2c_status_0)

lemma do_cmd_start:
  assumes "sz \<le> 0"
  shows "hm3301_do_cmd st tr HM3301_START_MEAS data sz =
     Some (i2c_status (i2c_master_send (client st) tr start_frame) 5, data,
           tr @ [I2C_Send start_frame])"
  using assms
  by (auto simp: hm3301_do_cmd_def hm3301_do_cmd_switch_def wtr_tx cmd_defs start_frame_def
      HM3301_MAX_READ_SIZE_def frame_buf strip_done i2c_status_0 crc8_start Let_def)

lemma take4: "4 \<le> length d \<Longrightarrow> take 4 d = [d ! 0, d ! 1, d ! 2, d ! 3]"
  by (auto simp: list_eq_iff_nth_eq numeral_eq_Suc less_Suc_eq)

lemma low_byte_period: "(32772 :: 8 word) = 4"
  by simp

lemma do_cmd_period:
  assumes "4 \<le> length d" "sz \<le> 0"
  shows "hm3301_do_cmd st tr HM3301_AUTO_CLEANING_PERIOD (Some d) sz =
     Some (i2c_status (i2c_master_send (client st) tr (period_frame d)) 8, Some d,
           tr @ [I2C_Send (period_frame d)])"
  using assms
  by (auto simp: hm3301_do_cmd_def hm3301_do_cmd_switch_def wtr_tx cmd_defs period_frame_def
      HM3301_MAX_READ_SIZE_def frame_buf strip_done i2c_status_0 Let_def take4 low_byte_period)

lemma do_cmd_period_undefined:
  "data = None \<or> length (the data) < 4 \<Longrightarrow> hm3301_do_cmd st tr HM3301_AUTO_CLEANING_PERIOD data sz = None"
  by (auto simp: hm3301_do_cmd_def hm3301_do_cmd_switch_def cmd_defs Let_def split: option.splits)

lemma length_rx_buf: "length buf \<le> length (rx_buf buf n bytes)"
  by (simp add: rx_buf_def)

lemma length_groups_data: "length (groups_data buf j n) = 2 * (n - j)"
  by (induction n) (auto simp: groups_data_def Suc_diff_le)

lemma strip_loop_defined:
  assumes "3 * n \<le> length buf" "2 * n \<le> length d"
  shows "\<exists>ret d'. length d' = length d \<and>
     (hm3301_do_cmd_strip buf (int (3 * n)) 0 (Some d) 0 tr = Some (ret, Some d', tr)
      \<or> hm3301_do_cmd_strip buf (int (3 * n)) 0 (Some d) 0 tr =
           Some (ret, Some d', tr @ [Dev_err ''data integrity check failed'']))"
proof -
  have eq: "hm3301_do_cmd_strip buf (int (3 * n)) (3 * 0) (Some d) (2 * 0) tr =
    (case find (\<lambda>g. \<not> group_ok buf g) [0..<n] of
       None \<Rightarrow> Some (0, Some (take (2 * 0) d @ groups_data buf 0 n @ drop (2 * n) d), tr)
     | Some k \<Rightarrow> Some (- EIO, Some (take (2 * 0) d @ groups_data buf 0 k @ drop (2 * k) d),
                   tr @ [Dev_err ''data integrity check failed'']))"
    using assms by (intro strip_loop) auto
  have len: "\<And>k. k \<le> n \<Longrightarrow> length (groups_data buf 0 k @ drop (2 * k) d) = length d"
    using assms(2) by (simp add: length_groups_data)
  show ?thesis
  proof (cases "find (\<lambda>g. \<not> group_ok buf g) [0..<n]")
    case None
    then show ?thesis using eq len [of n] by simp
  next
    case (Some k)
    then have "k < n" by (rule find_upt_less)
    then show ?thesis using eq Some len [of k] by simp
  qed
qed

text \<open>A read command whose transfers succeed, in terms of the groups of the response.\<close>

lemma do_cmd_read_groups:
  assumes rc: "read_cmd cmd" and n16: "n \<le> 16" and dl: "2 * n \<le> length d"
    and tx: "i2c_master_send (client st) tr (cmd_code cmd) = 2"
    and rx: "i2c_master_recv (client st) (tr @ [I2C_Send (cmd_code cmd)]) (int (3 * n))
               = (int (3 * n), raw)"
    and lr: "length raw = 3 * n"
  shows "hm3301_do_cmd st tr cmd (Some d) (int (2 * n)) =
    (case find (\<lambda>g. \<not> group_ok raw g) [0..<n] of
       None \<Rightarrow>
         Some (0, Some (groups_data raw 0 n @ drop (2 * n) d),
               tr @ [I2C_Send (cmd_code cmd), I2C_Recv (int (3 * n))])
     | Some k \<Rightarrow>
         Some (- EIO, Some (groups_data raw 0 k @ drop (2 * k) d),
               tr @ [I2C_Send (cmd_code cmd), I2C_Recv (int (3 * n)),
                     Dev_err ''data integrity check failed'']))"
proof -
  let ?buf = "raw @ drop (3 * n) (cmd_code cmd @ replicate 46 0)"
  let ?tr = "tr @ [I2C_Send (cmd_code cmd), I2C_Recv (int (3 * n))]"
  have sz: "int (2 * n) + int (2 * n) div 2 = int (3 * n)" by simp
  have rb: "rx_buf (cmd_code cmd @ replicate 46 0) (int (3 * n)) raw = ?buf"
    using lr by (simp add: rx_buf_def)
  have cmd: "hm3301_do_cmd st tr cmd (Some d) (int (2 * n)) =
      hm3301_do_cmd_strip ?buf (int (3 * n)) (3 * 0) (Some d) (2 * 0) ?tr"
    using n16 tx rx rb by (subst do_cmd_read [OF rc]) (simp_all add: Let_def sz del: of_nat_mult)
  have loop: "hm3301_do_cmd_strip ?buf (int (3 * n)) (3 * 0) (Some d) (2 * 0) ?tr =
     (case find (\<lambda>g. \<not> group_ok ?buf g) [0..<n] of
       None \<Rightarrow> Some (0, Some (take (2 * 0) d @ groups_data ?buf 0 n @ drop (2 * n) d), ?tr)
     | Some k \<Rightarrow> Some (- EIO, Some (take (2 * 0) d @ groups_data ?buf 0 k @ drop (2 * k) d),
                 ?tr @ [Dev_err ''data integrity check failed'']))"
    using lr dl by (intro strip_loop) auto
  have fb: "find (\<lambda>g. \<not> group_ok ?buf g) [0..<n] = find (\<lambda>g. \<not> group_ok raw g) [0..<n]"
    using lr by (intro find_first_bad_append) simp
  show ?thesis
  proof (cases "find (\<lambda>g. \<not> group_ok raw g) [0..<n]")
    case None
    then show ?thesis unfolding cmd loop fb using lr by (simp add: groups_data_append)
  next
    case (Some k)
    then have "k < n" by (rule find_upt_less)
    then show ?thesis unfolding cmd loop fb Some using lr by (simp add: groups_data_append)
  qed
qed

text \<open>
  A read of 34 data bytes asks for 51 bytes, more than the frame buffer holds: the
  command is undefined.
\<close>

lemma do_cmd_oversize_undefined:
  "hm3301_do_cmd \<lparr>client = sim_client (\<lambda>n. []), state = RESET\<rparr> [] HM3301_READ_SERIAL
     (Some (replicate 34 0)) 34 = None"
  by code_simp

subsection \<open>Reset and measurement\<close>

lemma cmd_code_reset: "cmd_code HM3301_RESET = [0xd3, 0x04]"
  by (simp add: cmd_code_def cmd_defs)

lemma cmd_code_stop: "cmd_code HM3301_STOP_MEAS = [0x01, 0x04]"
  by (simp add: cmd_code_def cmd_defs)

lemma cmd_code_fan: "cmd_code HM3301_START_FAN_CLEANING = [0x56, 0x07]"
  by (simp add: cmd_code_def cmd_defs)

lemma cmd_code_flag: "cmd_code HM3301_READ_DATA_READY_FLAG = [0x02, 0x02]"
  by (simp add: cmd_code_def cmd_defs)

lemma cmd_code_data: "cmd_code HM3301_READ_DATA = [0x03, 0x00]"
  by (simp add: cmd_code_def cmd_defs)

lemma cmd_code_period: "cmd_code HM3301_READ_AUTO_CLEANING_PERIOD = [0x80, 0x04]"
  by (simp add: cmd_code_def cmd_defs)

lemma do_cmd_reset_eq:
  "hm3301_do_cmd_reset st tr =
     Some (i2c_status (i2c_master_send (client st) tr [0xd3, 0x04]) 2, st\<lparr>state := RESET\<rparr>,
           tr @ [I2C_Send [0xd3, 0x04], Msleep 300, I2C_Send [0x01, 0x04]])"
  by (simp add: hm3301_do_cmd_reset_def do_cmd_plain cmd_code_reset cmd_code_stop)

lemma do_meas_start_failed:
  assumes "state st = RESET" "i2c_master_send (client st) tr start_frame \<noteq> 5"
  shows "hm3301_do_meas st tr data sz =
     Some (i2c_status (i2c_master_send (client st) tr start_frame) 5, data, st,
           tr @ [I2C_Send start_frame])"
  using assms by (simp add: hm3301_do_meas_def do_cmd_start i2c_status_0)

lemma do_meas_state:
  assumes "hm3301_do_meas st tr data sz = Some (ret, data', st', tr')"
  shows "client st' = client st \<and>
     (state st' = MEASURING \<longleftrightarrow>
        state st = MEASURING \<or> i2c_master_send (client st) tr start_frame = 5)"
proof (cases "state st")
  case RESET
  with assms show ?thesis
    by (auto simp: hm3301_do_meas_def do_cmd_start i2c_status_0 split: if_splits)
next
  case MEASURING
  with assms show ?thesis
    by (auto simp: hm3301_do_meas_def)
qed

lemma flag_not_ready:
  assumes tx: "\<forall>h. i2c_master_send (client st) h [0x02, 0x02] = 2"
    and rx: "\<forall>h. \<exists>b0 b1. i2c_master_recv (client st) h 3
                = (3, [b0, b1, crc8 hm3301_crc8_table [b0, b1] CRC8_INIT_VALUE]) \<and> b1 \<noteq> 1"
    and len: "2 \<le> length tmp"
  shows "\<exists>tmp'. length tmp' = length tmp \<and> tmp' ! 1 \<noteq> 1 \<and>
     hm3301_do_cmd st tr HM3301_READ_DATA_READY_FLAG (Some tmp) 2
       = Some (0, Some tmp', tr @ [I2C_Send [0x02, 0x02], I2C_Recv 3])"
proof -
  obtain b0 b1 where r: "i2c_master_recv (client st) (tr @ [I2C_Send [0x02, 0x02]]) 3
       = (3, [b0, b1, crc8 hm3301_crc8_table [b0, b1] CRC8_INIT_VALUE])" and b1: "b1 \<noteq> 1"
    using rx by blast
  have "hm3301_do_cmd st tr HM3301_READ_DATA_READY_FLAG (Some tmp) (int (2 * 1)) =
    (case find (\<lambda>g. \<not> group_ok [b0, b1, crc8 hm3301_crc8_table [b0, b1] CRC8_INIT_VALUE] g) [0..<1] of
       None \<Rightarrow>
         Some (0, Some (groups_data [b0, b1, crc8 hm3301_crc8_table [b0, b1] CRC8_INIT_VALUE] 0 1 @ drop (2 * 1) tmp),
               tr @ [I2C_Send (cmd_code HM3301_READ_DATA_READY_FLAG), I2C_Recv (int (3 * 1))])
     | Some k \<Rightarrow>
         Some (- EIO, Some (groups_data [b0, b1, crc8 hm3301_crc8_table [b0, b1] CRC8_INIT_VALUE] 0 k @ drop (2 * k) tmp),
               tr @ [I2C_Send (cmd_code HM3301_READ_DATA_READY_FLAG), I2C_Recv (int (3 * 1)),
                     Dev_err ''data integrity check failed'']))"
    using tx r len by (intro do_cmd_read_groups) (simp_all add: read_cmd_def cmd_code_flag)
  then have "hm3301_do_cmd st tr HM3301_READ_DATA_READY_FLAG (Some tmp) 2
       = Some (0, Some ([b0, b1] @ drop 2 tmp), tr @ [I2C_Send [0x02, 0x02], I2C_Recv 3])"
    by (simp add: group_ok_def groups_data_def cmd_code_flag)
  moreover have "length ([b0, b1] @ drop 2 tmp) = length tmp" using len by simp
  moreover have "([b0, b1] @ drop 2 tmp) ! 1 \<noteq> 1" using b1 by simp
  ultimately show ?thesis by blast
qed

lemma poll_never_ready:
  assumes tx: "\<forall>h. i2c_master_send (client st) h [0x02, 0x02] = 2"
    and rx: "\<forall>h. \<exists>b0 b1. i2c_master_recv (client st) h 3
                = (3, [b0, b1, crc8 hm3301_crc8_table [b0, b1] CRC8_INIT_VALUE]) \<and> b1 \<noteq> 1"
  shows "2 \<le> length tmp \<Longrightarrow> \<exists>tmp'. hm3301_do_meas_poll st k tmp tr
       = Some (Inr (- 1), tmp', tr @ concat (replicate k poll_events))"
proof (induction k arbitrary: tmp tr)
  case 0
  then show ?case by simp
next
  case (Suc k)
  from flag_not_ready [OF tx rx Suc.prems, of tr]
  obtain tmp1 where t: "length tmp1 = length tmp" "tmp1 ! 1 \<noteq> 1"
    "hm3301_do_cmd st tr HM3301_READ_DATA_READY_FLAG (Some tmp) 2
       = Some (0, Some tmp1, tr @ [I2C_Send [0x02, 0x02], I2C_Recv 3])"
    by blast
  from Suc.IH [of tmp1 "(tr @ [I2C_Send [0x02, 0x02], I2C_Recv 3]) @ [Msleep_interruptible 300]"]
    t(1) Suc.prems
  obtain tmp' where "hm3301_do_meas_poll st k tmp1
      ((tr @ [I2C_Send [0x02, 0x02], I2C_Recv 3]) @ [Msleep_interruptible 300])
       = Some (Inr (- 1), tmp',
           ((tr @ [I2C_Send [0x02, 0x02], I2C_Recv 3]) @ [Msleep_interruptible 300])
             @ concat (replicate k poll_events))"
    by auto
  then show ?case using t by (simp add: poll_events_def)
qed

text \<open>\<open>cleaning_period_store\<close>, in terms of the events.\<close>

lemma cleaning_period_store_unfold:
  "cleaning_period_store st tr None len = Some (- EINVAL, st, tr) \<and>
   cleaning_period_store st tr (Some val) len =
     (if val < 0 \<or> 604800 < val then Some (- EINVAL, st, tr)
      else
        (let frame = [0x80, 0x04] @ checksummed (put_unaligned_be32 (word_of_int val));
             w = i2c_status (i2c_master_send (client st) tr frame) 8;
             tr1 = tr @ [I2C_Send frame]
         in if w \<noteq> 0 then Some (w, st, tr1)
            else
              (let r = i2c_status (i2c_master_send (client st) (tr1 @ [Msleep 20]) [0xd3, 0x04]) 2
               in Some (len, st\<lparr>state := RESET\<rparr>,
                    tr1 @ [Msleep 20, I2C_Send [0xd3, 0x04], Msleep 300, I2C_Send [0x01, 0x04]]
                      @ (if r \<noteq> 0
                         then [Dev_warn ''period changed but reads will return the old value'']
                         else [])))))"
  by (simp add: cleaning_period_store_def HM3301_AUTO_CLEANING_PERIOD_MIN_def
      HM3301_AUTO_CLEANING_PERIOD_MAX_def do_cmd_period do_cmd_reset_eq period_frame_def
      put_unaligned_be32_def Let_def)

lemma cleaning_period_store_state:
  assumes "cleaning_period_store st tr k len = Some (ret, st', tr')"
  shows "st' = st \<or>
     (st' = st\<lparr>state := RESET\<rparr> \<and> ret = len \<and>
      (\<exists>t ev. tr' = t @ [I2C_Send [0xd3, 0x04], Msleep 300, I2C_Send [0x01, 0x04]] @ ev))"
proof (cases k)
  case None
  with assms show ?thesis by (simp add: cleaning_period_store_unfold)
next
  case (Some val)
  let ?frame = "[0x80, 0x04] @ checksummed (put_unaligned_be32 (word_of_int val))"
  let ?tr1 = "tr @ [I2C_Send ?frame]"
  show ?thesis
  proof (cases "val < 0 \<or> 604800 < val \<or> i2c_status (i2c_master_send (client st) tr ?frame) 8 \<noteq> 0")
    case True
    with assms Some show ?thesis
      by (auto simp: cleaning_period_store_unfold Let_def split: if_splits)
  next
    case False
    let ?ev = "if i2c_status (i2c_master_send (client st) (?tr1 @ [Msleep 20]) [0xd3, 0x04]) 2 \<noteq> 0
               then [Dev_warn ''period changed but reads will return the old value''] else []"
    from assms Some False
    have "st' = st\<lparr>state := RESET\<rparr>" "ret = len"
      "tr' = (?tr1 @ [Msleep 20]) @ [I2C_Send [0xd3, 0x04], Msleep 300, I2C_Send [0x01, 0x04]] @ ?ev"
      by (simp_all add: cleaning_period_store_unfold Let_def)
    then show ?thesis by blast
  qed
qed

text \<open>The bytes of a cleaning period, and the checksum of \<open>0E 10\<close> (3600 s).\<close>

lemma put_be32_period:
  assumes "0 \<le> val" "val \<le> 604800"
  shows "put_unaligned_be32 (word_of_int val) =
     [0x00, word_of_int (val div 65536), word_of_int (val div 256), word_of_int val]"
proof -
  have b: "ucast (drop_bit k (word_of_int val :: u32)) = (word_of_int (drop_bit k val) :: u8)"
    if "k \<le> 24" for k
    using that by (intro bit_word_eqI) (auto simp: bit_simps)
  have z: "drop_bit 24 val = 0" using assms by (simp add: drop_bit_eq_div)
  show ?thesis
    using b [of 24] b [of 16] b [of 8] b [of 0] z
    by (simp add: put_unaligned_be32_def drop_bit_eq_div)
qed

lemma low_byte_3600: "(3600 :: 8 word) = 16"
  by simp

lemma crc8_3600: "crc8 hm3301_crc8_table [0x0E, 0x10] CRC8_INIT_VALUE = 0xAF"
  by code_simp

text \<open>
  Where every shift is defined the two readings of the decoder agree, here at the four
  floats of \<open>pm_floats\<close> and at 0.5.
\<close>

lemma float_masked_agrees:
  "hm3301_float_to_int_clamped_masked [0x41, 0x45, 0x70, 0xA4] = Some 1234 \<and>
   hm3301_float_to_int_clamped_masked [0x00, 0x00, 0x00, 0x00] = Some 0 \<and>
   hm3301_float_to_int_clamped_masked [0x45, 0x5A, 0xC0, 0x00] = Some 300000 \<and>
   hm3301_float_to_int_clamped_masked [0x42, 0x36, 0x66, 0x66] = Some 4559 \<and>
   hm3301_float_to_int_clamped_masked [0x3F, 0x00, 0x00, 0x00] = Some 50"
  by code_simp

subsection \<open>Big-endian values\<close>

lemma get_put_be32: "get_unaligned_be32 (put_unaligned_be32 w) = w"
proof (rule bit_word_eqI)
  fix n assume "n < LENGTH(32)"
  then consider "n < 8" | "8 \<le> n" "n < 16" | "16 \<le> n" "n < 24" | "24 \<le> n" "n < 32"
    by fastforce
  then show "bit (get_unaligned_be32 (put_unaligned_be32 w)) n = bit w n"
    by cases (auto simp: get_unaligned_be32_def put_unaligned_be32_def bit_simps)
qed

lemma sint_period: "0 \<le> p \<Longrightarrow> p \<le> 604800 \<Longrightarrow> sint (word_of_int p :: u32) = p"
  by (simp add: sint_sbintrunc' signed_take_bit_int_eq_self)

lemma checksummed4:
  "checksummed [a, b, c, d] =
     [a, b, crc8 hm3301_crc8_table [a, b] CRC8_INIT_VALUE,
      c, d, crc8 hm3301_crc8_table [c, d] CRC8_INIT_VALUE]"
  by simp

lemma length_put_be32: "length (put_unaligned_be32 w) = 4"
  by (simp add: put_unaligned_be32_def)

subsection \<open>A measurement of 12.34, 0.0, 3500.0 and 45.6\<close>

declare hm3301_do_meas_convert.simps [simp del]

lemma float_prefix:
  "hm3301_float_to_int_clamped (a # b # c # d # e # rest) = hm3301_float_to_int_clamped [a, b, c, d]"
  by (simp add: hm3301_float_to_int_clamped_def get_unaligned_be32_def)

lemma pm_floats_nearest:
  "nearest_single [0x41, 0x45, 0x70, 0xA4] 1234 \<and> nearest_single [0x45, 0x5A, 0xC0, 0x00] 350000
     \<and> nearest_single [0x42, 0x36, 0x66, 0x66] 4560"
  by code_simp

lemma float_12_34: "hm3301_float_to_int_clamped [0x41, 0x45, 0x70, 0xA4] = Some 1234"
  by code_simp

lemma float_0: "hm3301_float_to_int_clamped [0x00, 0x00, 0x00, 0x00] = Some 0"
  by code_simp

lemma float_3500: "hm3301_float_to_int_clamped [0x45, 0x5A, 0xC0, 0x00] = Some 300000"
  by code_simp

lemma float_45_6: "hm3301_float_to_int_clamped [0x42, 0x36, 0x66, 0x66] = Some 4559"
  by code_simp

lemma convert_pm_floats:
  "hm3301_do_meas_convert pm_floats [a, b, c, d] 4 0 = Some [1234, 0, 300000, 4559]"
  by (simp add: hm3301_do_meas_convert.simps pm_floats_def float_prefix float_12_34 float_0
      float_3500 float_45_6)

lemma checksummed_pm_floats_ok:
  "find (\<lambda>g. \<not> group_ok (checksummed pm_floats) g) [0..<8] = None"
  by (simp add: pm_floats_def group_ok_def upt_rec [of _ "numeral _"] upt_rec [of _ "Suc _"])

lemma checksummed_pm_floats_data: "groups_data (checksummed pm_floats) 0 8 = pm_floats"
  by (simp add: pm_floats_def groups_data_def upt_rec [of _ "numeral _"] upt_rec [of _ "Suc _"])

lemma length_checksummed_pm_floats: "length (checksummed pm_floats) = 24"
  by (simp add: pm_floats_def)

lemma poll_ready_first:
  assumes "hm3301_do_cmd st tr HM3301_READ_DATA_READY_FLAG (Some tmp) 2 = Some (0, Some tmp1, tr1)"
    and "tmp1 ! 1 = 1"
  shows "hm3301_do_meas_poll st (Suc n) tmp tr = Some (Inr (int n), tmp1, tr1)"
  using assms by simp

lemma flag_ready:
  assumes tx: "i2c_master_send (client st) tr [0x02, 0x02] = 2"
    and rx: "i2c_master_recv (client st) (tr @ [I2C_Send [0x02, 0x02]]) 3 = (3, checksummed [0x00, 0x01])"
    and len: "2 \<le> length tmp"
  shows "hm3301_do_cmd st tr HM3301_READ_DATA_READY_FLAG (Some tmp) 2
       = Some (0, Some ([0x00, 0x01] @ drop 2 tmp), tr @ [I2C_Send [0x02, 0x02], I2C_Recv 3])"
proof -
  have "hm3301_do_cmd st tr HM3301_READ_DATA_READY_FLAG (Some tmp) (int (2 * 1)) =
    (case find (\<lambda>g. \<not> group_ok (checksummed [0x00, 0x01]) g) [0..<1] of
       None \<Rightarrow>
         Some (0, Some (groups_data (checksummed [0x00, 0x01]) 0 1 @ drop (2 * 1) tmp),
               tr @ [I2C_Send (cmd_code HM3301_READ_DATA_READY_FLAG), I2C_Recv (int (3 * 1))])
     | Some k \<Rightarrow>
         Some (- EIO, Some (groups_data (checksummed [0x00, 0x01]) 0 k @ drop (2 * k) tmp),
               tr @ [I2C_Send (cmd_code HM3301_READ_DATA_READY_FLAG), I2C_Recv (int (3 * 1)),
                     Dev_err ''data integrity check failed'']))"
    using tx rx len by (intro do_cmd_read_groups) (simp_all add: read_cmd_def cmd_code_flag)
  then show ?thesis
    by (simp add: group_ok_def groups_data_def cmd_code_flag)
qed

lemma read_pm_floats:
  assumes tx: "i2c_master_send (client st) tr [0x03, 0x00] = 2"
    and rx: "i2c_master_recv (client st) (tr @ [I2C_Send [0x03, 0x00]]) 24 = (24, checksummed pm_floats)"
    and len: "length tmp = 16"
  shows "hm3301_do_cmd st tr HM3301_READ_DATA (Some tmp) 16
       = Some (0, Some pm_floats, tr @ [I2C_Send [0x03, 0x00], I2C_Recv 24])"
proof -
  have "hm3301_do_cmd st tr HM3301_READ_DATA (Some tmp) (int (2 * 8)) =
    (case find (\<lambda>g. \<not> group_ok (checksummed pm_floats) g) [0..<8] of
       None \<Rightarrow>
         Some (0, Some (groups_data (checksummed pm_floats) 0 8 @ drop (2 * 8) tmp),
               tr @ [I2C_Send (cmd_code HM3301_READ_DATA), I2C_Recv (int (3 * 8))])
     | Some k \<Rightarrow>
         Some (- EIO, Some (groups_data (checksummed pm_floats) 0 k @ drop (2 * k) tmp),
               tr @ [I2C_Send (cmd_code HM3301_READ_DATA), I2C_Recv (int (3 * 8)),
                     Dev_err ''data integrity check failed'']))"
    using tx rx len
    by (intro do_cmd_read_groups) (simp_all add: read_cmd_def cmd_code_data length_checksummed_pm_floats)
  then show ?thesis using len
    by (simp add: checksummed_pm_floats_ok checksummed_pm_floats_data cmd_code_data)
qed


lemma do_meas_read_pm_floats:
  assumes tx: "\<forall>h bytes. i2c_master_send (client st) h bytes = int (length bytes)"
    and flag: "\<forall>h. i2c_master_recv (client st) h 3 = (3, checksummed [0x00, 0x01])"
    and rd: "\<forall>h. i2c_master_recv (client st) h 24 = (24, checksummed pm_floats)"
  shows "hm3301_do_meas_read st tr [a, b, c, d] 4 =
     Some (0, [1234, 0, 300000, 4559],
           tr @ [I2C_Send [0x02, 0x02], I2C_Recv 3, I2C_Send [0x03, 0x00], I2C_Recv 24])"
proof -
  let ?tmp = "[0x00, 0x01] @ drop 2 (replicate 16 (0 :: u8))"
  let ?tr1 = "tr @ [I2C_Send [0x02, 0x02], I2C_Recv 3]"
  have f: "hm3301_do_cmd st tr HM3301_READ_DATA_READY_FLAG (Some (replicate 16 0)) 2
       = Some (0, Some ?tmp, ?tr1)"
    using tx flag by (intro flag_ready) simp_all
  have "hm3301_do_meas_poll st (Suc 4) (replicate 16 0) tr = Some (Inr (int 4), ?tmp, ?tr1)"
    using f by (rule poll_ready_first) simp
  then have poll: "hm3301_do_meas_poll st 5 (replicate 16 0) tr = Some (Inr 4, ?tmp, ?tr1)"
    by simp
  have r: "hm3301_do_cmd st ?tr1 HM3301_READ_DATA (Some ?tmp) 16
       = Some (0, Some pm_floats, ?tr1 @ [I2C_Send [0x03, 0x00], I2C_Recv 24])"
    using tx rd by (intro read_pm_floats) simp_all
  have s: "s32 16 = 16" by (simp add: s32_small)
  show ?thesis
    unfolding hm3301_do_meas_read_def poll
    by (simp add: s r convert_pm_floats del: append.simps drop_replicate)
qed


subsection \<open>The float decoder\<close>

lemma sint_nonneg_pattern:
  "uint (w :: u32) < 2 ^ 31 \<Longrightarrow> sint w = uint w"
proof -
  assume a: "uint w < 2 ^ 31"
  have b: "- (2 ^ 31) \<le> uint w" by (rule order_trans [OF _ uint_ge_0]) simp
  show ?thesis by (simp add: sint_uint signed_take_bit_int_eq_self [OF b a])
qed

lemma and_mask_23: "(x :: int) AND mask 23 = x mod 2 ^ 23"
  by (simp add: take_bit_eq_mask [symmetric] take_bit_eq_mod)

text \<open>The decoder on a pattern with the sign bit clear, in terms of div and mod.\<close>

lemma float_to_int_nonneg:
  assumes "4 \<le> length fp" "float_bits fp < 2 ^ 31"
  shows "hm3301_float_to_int_clamped fp =
     (let mantissa = float_mantissa fp; e = float_exp fp
      in if e = - 127 \<and> mantissa = 0 then Some 0
         else if e < 0 then c_shr (((2 ^ 23 + mantissa) * 100) div 2 ^ 23) (- e)
         else
           (case (c_shl 1 e, c_shr mantissa (23 - e)) of
              (Some a, Some b) \<Rightarrow>
                if HM3301_MAX_PM \<le> a + b then Some (HM3301_MAX_PM * 100)
                else
                  (case GENMASK (23 - e - 1) 0 of
                     None \<Rightarrow> None
                   | Some m \<Rightarrow>
                       map_option (\<lambda>q. (a + b) * 100 + q)
                         (c_shr ((mantissa AND m) * 100) (23 - e)))
            | _ \<Rightarrow> None))"
  using assms
  by (auto simp: hm3301_float_to_int_clamped_def float_bits_def float_mantissa_def float_exp_def
      sint_nonneg_pattern and_mask_23 drop_bit_eq_div push_bit_eq_mult Let_def
      split: option.splits)


lemma float_below_one:
  assumes len: "4 \<le> length fp" and lo: "0x30000000 \<le> float_bits fp"
    and hi: "float_bits fp < 0x3F800000"
  shows "hm3301_float_to_int_clamped fp =
           Some ((((2 ^ 23 + float_mantissa fp) * 100) div 2 ^ 23) div 2 ^ nat (- float_exp fp))
         \<and> 0 \<le> (((2 ^ 23 + float_mantissa fp) * 100) div 2 ^ 23) div 2 ^ nat (- float_exp fp)
         \<and> (((2 ^ 23 + float_mantissa fp) * 100) div 2 ^ 23) div 2 ^ nat (- float_exp fp) \<le> 99"
proof -
  let ?m = "float_mantissa fp" and ?e = "float_exp fp"
  let ?n = "((2 ^ 23 + ?m) * 100) div 2 ^ 23"
  have m: "0 \<le> ?m" "?m < 2 ^ 23" by (simp_all add: float_mantissa_def)
  have e: "- 31 \<le> ?e" "?e \<le> - 1" using lo hi by (simp_all add: float_exp_def)
  have n: "100 \<le> ?n" "?n \<le> 199" using m by simp_all
  have dec: "hm3301_float_to_int_clamped fp = Some (?n div 2 ^ nat (- ?e))"
    using e hi by (simp add: float_to_int_nonneg [OF len] c_shr_def drop_bit_eq_div Let_def)
  obtain k where k: "nat (- ?e) = Suc k" using e by (cases "nat (- ?e)") auto
  have "?n div 2 ^ nat (- ?e) \<le> ?n div 2"
    unfolding k using n by (simp add: zdiv_mono2 flip: div_mult2_eq)
  then have up: "?n div 2 ^ nat (- ?e) \<le> 99" using n by simp
  have low: "0 \<le> ?n div 2 ^ nat (- ?e)" using n by (simp add: pos_imp_zdiv_nonneg_iff)
  from dec up low show ?thesis by simp
qed


lemma and_mask_mod: "(x :: int) AND mask n = x mod 2 ^ n"
  by (simp add: take_bit_eq_mask [symmetric] take_bit_eq_mod)

lemma pow2_less_3000: "(2 :: int) ^ k < 3000 \<Longrightarrow> k < 12"
proof (rule ccontr)
  assume a: "(2 :: int) ^ k < 3000" and "\<not> k < 12"
  then have "12 \<le> k" by simp
  then have "(2 :: int) ^ 12 \<le> 2 ^ k" by (intro power_increasing) simp_all
  with a show False by simp
qed

lemma float_at_least_one:
  assumes len: "4 \<le> length fp" and lo: "0x3F800000 \<le> float_bits fp"
    and hi: "float_bits fp < 0x4B800000"
  shows "hm3301_float_to_int_clamped fp =
           Some (if 3000 \<le> float_int_part fp then 300000
                 else float_int_part fp * 100 + float_hundredths fp)
         \<and> (float_int_part fp < 3000 \<longrightarrow>
               100 \<le> float_int_part fp * 100 + float_hundredths fp
             \<and> float_int_part fp * 100 + float_hundredths fp < 300000)"
proof -
  let ?m = "float_mantissa fp" and ?e = "float_exp fp"
  define k where "k = nat ?e"
  have m: "0 \<le> ?m" "?m < 2 ^ 23" by (simp_all add: float_mantissa_def)
  have e: "0 \<le> ?e" "?e \<le> 23" using lo hi by (simp_all add: float_exp_def)
  have k: "?e = int k" "k \<le> 23" "nat (23 - ?e) = 23 - k" using e by (simp_all add: k_def)
  have p: "(2 :: int) ^ k \<le> 2 ^ 23" using k(2) by (intro power_increasing) simp_all
  have p1: "(1 :: int) \<le> 2 ^ k" by simp
  have p': "(2 :: int) ^ k \<le> 8388608" using p by simp
  have s: "s32 (2 ^ k) = 2 ^ k" using p' p1 by (intro s32_small) linarith+
  have nk: "nat (23 - int k) = 23 - k" using k by simp
  have shl: "c_shl 1 (int k) = Some (2 ^ k)"
    using k by (simp add: c_shl_def push_bit_eq_mult s)
  have shr: "c_shr x (23 - int k) = Some (x div 2 ^ (23 - k))" for x
    using k(2) by (simp add: c_shr_def drop_bit_eq_div nk del: of_nat_diff)
  have ip: "float_int_part fp = 2 ^ k + ?m div 2 ^ (23 - k)"
    using k by (simp add: float_int_part_def)
  have hd: "float_hundredths fp = ((?m mod 2 ^ (23 - k)) * 100) div 2 ^ (23 - k)"
    using k by (simp add: float_hundredths_def)
  have q0: "0 \<le> ?m div 2 ^ (23 - k)" using m by (simp add: pos_imp_zdiv_nonneg_iff)
  have h: "0 \<le> float_hundredths fp" "float_hundredths fp \<le> 99"
  proof -
    let ?d = "(2 :: int) ^ (23 - k)"
    have d: "0 < ?d" by simp
    have r: "0 \<le> ?m mod ?d" "?m mod ?d < ?d" using d by simp_all
    show "0 \<le> float_hundredths fp" unfolding hd using r d by (simp add: pos_imp_zdiv_nonneg_iff)
    let ?a = "(?m mod ?d) * 100"
    have a: "?a < ?d * 100" using r by simp
    have "?d * (?a div ?d) + ?a mod ?d = ?a" by (rule mult_div_mod_eq)
    moreover have "0 \<le> ?a mod ?d" using d by simp
    ultimately have "?d * (?a div ?d) \<le> ?a" by linarith
    with a have "?d * (?a div ?d) < ?d * 100" by linarith
    then have "?a div ?d < 100" using d by (simp only: mult_less_cancel_left_pos)
    then show "float_hundredths fp \<le> 99" unfolding hd by simp
  qed
  show ?thesis
  proof (cases "3000 \<le> float_int_part fp")
    case True
    then show ?thesis using e hi k
      by (simp add: float_to_int_nonneg [OF len] shl shr ip HM3301_MAX_PM_def Let_def
          del: of_nat_diff)
  next
    case False
    then have "(2 :: int) ^ k < 3000" using q0 by (simp add: ip)
    then have k12: "k < 12" by (rule pow2_less_3000)
    have sk: "Suc (22 - k) = 23 - k" using k12 by simp
    have "nat (22 - int k) = 22 - k" using k12 by simp
    then have gm: "GENMASK (22 - int k) 0 = Some (mask (23 - k))"
      using k12 by (simp add: GENMASK_def sk)
    have dec: "hm3301_float_to_int_clamped fp =
        Some (float_int_part fp * 100 + float_hundredths fp)"
      using False e hi k
      by (simp add: float_to_int_nonneg [OF len] shl shr gm ip hd HM3301_MAX_PM_def Let_def
          and_mask_mod del: of_nat_diff)
    have "1 \<le> float_int_part fp" unfolding ip using p1 q0 by linarith
    then show ?thesis using dec False h by simp
  qed
qed


lemma bits_3500: "float_bits [0x45, 0x5A, 0xC0, 0x00] = 0x455AC000"
  by code_simp

lemma exp_3500: "float_exp [0x45, 0x5A, 0xC0, 0x00] = 11"
  by code_simp

lemma int_part_3500: "float_int_part [0x45, 0x5A, 0xC0, 0x00] = 3500"
  by code_simp




text \<open>
  Patterns on which a shift of the decoder is undefined: \<open>2 ^ 24\<close> (a shift by -1),
  a float of exponent 43 (shifts by 43 and by -20), \<open>2 ^ -32\<close> (a shift by 32).
\<close>

lemma float_large_undefined:
  "hm3301_float_to_int_clamped [0x4B, 0x80, 0x00, 0x00] = None \<and>
   hm3301_float_to_int_clamped [0x55, 0x3B, 0x7F, 0xFF] = None \<and>
   hm3301_float_to_int_clamped [0x2F, 0x80, 0x00, 0x00] = None"
  by code_simp

section \<open>Decoding a response\<close>

text \<open>
  C1, as the code has it. A read command for \<open>2 n\<close> data bytes (\<open>n \<le> 16\<close>, so that the
  \<open>3 n\<close> bytes of the response fit the frame buffer) whose transfers succeed walks the
  response \<open>raw\<close> in \<open>n\<close> groups of two data bytes and a checksum. When every checksum is
  right it returns 0 and the caller's buffer starts with exactly the data bytes, in
  order, the checksums stripped. Otherwise it fails with \<open>-EIO\<close> at the first group \<open>k\<close>
  whose checksum is wrong; the data of the \<open>k\<close> groups before it has already been stored
  in the caller's buffer, the rest of the buffer is unchanged.
\<close>

theorem do_cmd_decode_response:
  assumes rc: "read_cmd cmd" and n16: "n \<le> 16" and dl: "2 * n \<le> length d"
    and tx: "i2c_master_send (client st) tr (cmd_code cmd) = 2"
    and rx: "i2c_master_recv (client st) (tr @ [I2C_Send (cmd_code cmd)]) (int (3 * n))
               = (int (3 * n), raw)"
    and lr: "length raw = 3 * n"
  shows "hm3301_do_cmd st tr cmd (Some d) (int (2 * n)) =
    (case find (\<lambda>g. \<not> group_ok raw g) [0..<n] of
       None \<Rightarrow>
         Some (0, Some (groups_data raw 0 n @ drop (2 * n) d),
               tr @ [I2C_Send (cmd_code cmd), I2C_Recv (int (3 * n))])
     | Some k \<Rightarrow>
         Some (- EIO, Some (groups_data raw 0 k @ drop (2 * k) d),
               tr @ [I2C_Send (cmd_code cmd), I2C_Recv (int (3 * n)),
                     Dev_err ''data integrity check failed'']))"
  using assms by (rule do_cmd_read_groups)

text \<open>
  The theorem at a response of two groups with right checksums: the period 604800
  (\<open>0x00093A80\<close>) is read back.
\<close>

theorem do_cmd_decode_response_witness:
  "hm3301_do_cmd
     \<lparr>client = sim_client (\<lambda>n. checksummed [0x00, 0x09, 0x3A, 0x80]), state = RESET\<rparr> []
     HM3301_READ_AUTO_CLEANING_PERIOD (Some [0, 0, 0, 0]) 4 =
   Some (0, Some [0x00, 0x09, 0x3A, 0x80], [I2C_Send [0x80, 0x04], I2C_Recv 6])"
  using do_cmd_decode_response [of HM3301_READ_AUTO_CLEANING_PERIOD 2 "[0, 0, 0, 0]"
    "\<lparr>client = sim_client (\<lambda>n. checksummed [0x00, 0x09, 0x3A, 0x80]), state = RESET\<rparr>" "[]"
    "checksummed [0x00, 0x09, 0x3A, 0x80]"]
  by (simp add: read_cmd_def cmd_code_def sim_client_def group_ok_def groups_data_def
      upt_rec [of _ "numeral _"] upt_rec [of _ "Suc _"])

text \<open>
  C1 as stated fails: the caller's buffer is not unchanged on error. The response has a
  first group with a right checksum and a second group \<open>00 00 00\<close> with a wrong one (the
  checksum of \<open>00 00\<close> is \<open>0x81\<close>): the command fails with \<open>-EIO\<close>, and the caller's
  buffer \<open>[0, 0, 0, 0]\<close> has become \<open>[0x12, 0x34, 0, 0]\<close>.
\<close>

theorem do_cmd_partial_data_counterexample:
  "hm3301_do_cmd
     \<lparr>client = sim_client (\<lambda>n. checksummed [0x12, 0x34] @ [0, 0, 0]), state = RESET\<rparr> []
     HM3301_READ_AUTO_CLEANING_PERIOD (Some [0, 0, 0, 0]) 4 =
   Some (- EIO, Some [0x12, 0x34, 0, 0],
         [I2C_Send [0x80, 0x04], I2C_Recv 6, Dev_err ''data integrity check failed''])"
  by code_simp

section \<open>The float decoder: the ceiling\<close>

text \<open>
  C2. The decoder clamps at 3000.00 (\<open>if (val >= HM3301_MAX_PM)\<close>, and the comment
  "return values ranging from 100 to 300000"), but it misses the floats from \<open>2 ^ 24\<close>
  up: there \<open>shift = 23 - exp\<close> is negative and the integer part is computed with shifts
  that C leaves undefined, before the clamp is tested. At the non-negative float
  \<open>0x553B7FFF\<close> (exponent 43) the decoder evaluates \<open>1 << 43\<close> and \<open>mantissa >> -20\<close>:
  in C the result is undefined, and as the processor executes the shifts it is
  \<open>2999 * 100 + 95199 = 395099\<close>, above the ceiling of 300000.
\<close>

theorem float_to_int_clamped_exceeds_ceiling:
  "hm3301_float_to_int_clamped [0x55, 0x3B, 0x7F, 0xFF] = None \<and>
   hm3301_float_to_int_clamped_masked [0x55, 0x3B, 0x7F, 0xFF] = Some 395099"
  by code_simp

text \<open>
  Below \<open>2 ^ 24\<close> the ceiling holds. For four bytes with the sign bit clear that are zero
  or have a biased exponent from 96 to 150, every shift is defined and the decoder
  returns a value from 0 to 300000; when the exponent is not negative and the integer
  part is 3000 or more, it returns exactly 300000. So it does at 3500.0.
\<close>

lemma float_to_int_clamped_ceiling:
  assumes len: "4 \<le> length fp"
    and lo: "float_bits fp = 0 \<or> 0x30000000 \<le> float_bits fp"
    and hi: "float_bits fp < 0x4B800000"
  shows "\<exists>v. hm3301_float_to_int_clamped fp = Some v \<and> 0 \<le> v \<and> v \<le> 300000 \<and>
           (0 \<le> float_exp fp \<and> 3000 \<le> float_int_part fp \<longrightarrow> v = 300000)"
proof -
  consider "float_bits fp = 0" | "0x30000000 \<le> float_bits fp" "float_bits fp < 0x3F800000"
    | "0x3F800000 \<le> float_bits fp"
    using lo by linarith
  then show ?thesis
  proof cases
    case 1
    then show ?thesis
      by (simp add: float_to_int_nonneg [OF len] float_mantissa_def float_exp_def)
  next
    case 2
    then have "float_exp fp < 0" by (simp add: float_exp_def)
    with float_below_one [OF len 2] show ?thesis by simp
  next
    case 3
    from float_at_least_one [OF len 3 hi] show ?thesis
      by (cases "3000 \<le> float_int_part fp") simp_all
  qed
qed

lemma float_to_int_clamped_3500:
  "float_bits [0x45, 0x5A, 0xC0, 0x00] = 0x455AC000 \<and> float_exp [0x45, 0x5A, 0xC0, 0x00] = 11 \<and>
   float_int_part [0x45, 0x5A, 0xC0, 0x00] = 3500 \<and>
   hm3301_float_to_int_clamped [0x45, 0x5A, 0xC0, 0x00] = Some 300000"
  using float_to_int_clamped_ceiling [of "[0x45, 0x5A, 0xC0, 0x00]"]
  by (auto simp: bits_3500 exp_3500 int_part_3500)

section \<open>The float decoder: below 1.0\<close>




section \<open>Polling for the measurements\<close>

text \<open>
  C4, as the code has it. When every poll of the ready flag succeeds and reads a flag
  other than 1 (and the start command, if the device is in \<open>RESET\<close>, succeeds),
  \<open>hm3301_do_meas\<close> reads the flag exactly 5 times, sleeps 300 ms after each of the 5
  reads (so 5 sleeps, the last one after the last read), then fails with \<open>-ETIMEDOUT\<close>;
  the caller's data is unchanged and the device state is left \<open>MEASURING\<close>.
\<close>

theorem do_meas_timeout:
  assumes start: "state st = RESET \<longrightarrow> i2c_master_send (client st) tr start_frame = 5"
    and tx: "\<forall>h. i2c_master_send (client st) h [0x02, 0x02] = 2"
    and rx: "\<forall>h. \<exists>b0 b1. i2c_master_recv (client st) h 3
                = (3, [b0, b1, crc8 hm3301_crc8_table [b0, b1] CRC8_INIT_VALUE]) \<and> b1 \<noteq> 1"
  shows "hm3301_do_meas st tr data sz =
     Some (- ETIMEDOUT, data, st\<lparr>state := MEASURING\<rparr>,
           tr @ (if state st = RESET then [I2C_Send start_frame] else [])
              @ concat (replicate 5 [I2C_Send [0x02, 0x02], I2C_Recv 3, Msleep_interruptible 300]))"
proof -
  have rd: "\<And>(s :: hm3301_state) t. client s = client st \<Longrightarrow> hm3301_do_meas_read s t data sz
       = Some (- ETIMEDOUT, data, t @ concat (replicate 5 poll_events))"
  proof -
    fix s :: hm3301_state and t assume c: "client s = client st"
    from poll_never_ready [of s "replicate 16 0" 5 t] tx rx c
    obtain tmp' where "hm3301_do_meas_poll s 5 (replicate 16 0) t
       = Some (Inr (- 1), tmp', t @ concat (replicate 5 poll_events))"
      by auto
    then show "hm3301_do_meas_read s t data sz
       = Some (- ETIMEDOUT, data, t @ concat (replicate 5 poll_events))"
      by (simp add: hm3301_do_meas_read_def)
  qed
  show ?thesis
  proof (cases "state st")
    case RESET
    then show ?thesis using start
      by (simp add: hm3301_do_meas_def do_cmd_start i2c_status_def rd poll_events_def)
  next
    case MEASURING
    then have "st\<lparr>state := MEASURING\<rparr> = st" by simp
    then show ?thesis using MEASURING
      by (simp add: hm3301_do_meas_def rd poll_events_def)
  qed
qed

text \<open>The theorem on a transport that never reports ready, from \<open>RESET\<close>.\<close>

theorem do_meas_timeout_witness:
  "hm3301_do_meas \<lparr>client = sim_client (\<lambda>n. checksummed [0x00, 0x00]), state = RESET\<rparr> []
      [7, 7, 7, 7] 4 =
     Some (- ETIMEDOUT, [7, 7, 7, 7],
           \<lparr>client = sim_client (\<lambda>n. checksummed [0x00, 0x00]), state = MEASURING\<rparr>,
           I2C_Send [0x00, 0x10, 0x03, 0x00, 0xAC]
             # concat (replicate 5 [I2C_Send [0x02, 0x02], I2C_Recv 3, Msleep_interruptible 300]))"
  using do_meas_timeout [of "\<lparr>client = sim_client (\<lambda>n. checksummed [0x00, 0x00]), state = RESET\<rparr>"
      "[]" "[7, 7, 7, 7]" 4]
  by (simp add: sim_client_def start_frame_def)

text \<open>
  C4 as stated fails: there are 5 sleeps of 300 ms, not 4. On a transport that never
  reports ready, the events of \<open>hm3301_do_meas\<close> end with a sleep after the fifth read.
\<close>

theorem do_meas_timeout_sleeps_counterexample:
  "map_option (\<lambda>(ret, data, st, tr). (ret, data, state st, tr))
     (hm3301_do_meas \<lparr>client = sim_client (\<lambda>n. checksummed [0x00, 0x00]), state = MEASURING\<rparr> []
        [7, 7, 7, 7] 4) =
     Some (- ETIMEDOUT, [7, 7, 7, 7], MEASURING,
           [I2C_Send [0x02, 0x02], I2C_Recv 3, Msleep_interruptible 300,
            I2C_Send [0x02, 0x02], I2C_Recv 3, Msleep_interruptible 300,
            I2C_Send [0x02, 0x02], I2C_Recv 3, Msleep_interruptible 300,
            I2C_Send [0x02, 0x02], I2C_Recv 3, Msleep_interruptible 300,
            I2C_Send [0x02, 0x02], I2C_Recv 3, Msleep_interruptible 300])"
  by code_simp

section \<open>The device state\<close>

text \<open>
  C5. The field \<open>state\<close> is written by \<open>hm3301_do_meas\<close> and \<open>hm3301_do_cmd_reset\<close> only
  (\<open>hm3301_do_cmd\<close> returns no state).
  \<^item> \<open>hm3301_do_cmd_reset\<close> always leaves the state \<open>RESET\<close>, and returns what the reset
    command returned, whatever the stop command sent after the 300 ms returns.
  \<^item> From \<open>RESET\<close>, when the start command fails, \<open>hm3301_do_meas\<close> returns its error
    and leaves the state (and the caller's data) as they were.
  \<^item> After \<open>hm3301_do_meas\<close> the state is \<open>MEASURING\<close> exactly when it was \<open>MEASURING\<close>
    before or the start command succeeded: the function never goes back to \<open>RESET\<close>.
  \<^item> \<open>cleaning_period_store\<close> leaves the state as it was, or returns \<open>len\<close> with the
    state \<open>RESET\<close> after the events of the reset sequence.
\<close>

theorem device_state_transitions:
  "hm3301_do_cmd_reset st tr =
      Some (i2c_status (i2c_master_send (client st) tr [0xd3, 0x04]) 2, st\<lparr>state := RESET\<rparr>,
            tr @ [I2C_Send [0xd3, 0x04], Msleep 300, I2C_Send [0x01, 0x04]])
   \<and> hm3301_do_cmd st tr HM3301_RESET None 0 =
      Some (i2c_status (i2c_master_send (client st) tr [0xd3, 0x04]) 2, None,
            tr @ [I2C_Send [0xd3, 0x04]])
   \<and> hm3301_do_cmd st tr HM3301_START_MEAS None 0 =
      Some (i2c_status (i2c_master_send (client st) tr start_frame) 5, None,
            tr @ [I2C_Send start_frame])
   \<and> (state st = RESET \<and> i2c_master_send (client st) tr start_frame \<noteq> 5 \<longrightarrow>
        hm3301_do_meas st tr data sz =
          Some (i2c_status (i2c_master_send (client st) tr start_frame) 5, data, st,
                tr @ [I2C_Send start_frame]))
   \<and> (\<forall>ret data' st' tr'. hm3301_do_meas st tr data sz = Some (ret, data', st', tr') \<longrightarrow>
        client st' = client st \<and>
        (state st' = MEASURING \<longleftrightarrow>
           state st = MEASURING \<or> i2c_master_send (client st) tr start_frame = 5))
   \<and> (\<forall>ret st' tr'. cleaning_period_store st tr k len = Some (ret, st', tr') \<longrightarrow>
        st' = st \<or>
        (st' = st\<lparr>state := RESET\<rparr> \<and> ret = len \<and>
         (\<exists>t ev. tr' = t @ [I2C_Send [0xd3, 0x04], Msleep 300, I2C_Send [0x01, 0x04]] @ ev)))"
proof -
  have a: "hm3301_do_cmd st tr HM3301_RESET None 0 =
      Some (i2c_status (i2c_master_send (client st) tr [0xd3, 0x04]) 2, None,
            tr @ [I2C_Send [0xd3, 0x04]])"
    by (simp add: do_cmd_plain cmd_code_reset)
  have b: "hm3301_do_cmd st tr HM3301_START_MEAS None 0 =
      Some (i2c_status (i2c_master_send (client st) tr start_frame) 5, None,
            tr @ [I2C_Send start_frame])"
    by (simp add: do_cmd_start)
  have c: "state st = RESET \<and> i2c_master_send (client st) tr start_frame \<noteq> 5 \<longrightarrow>
        hm3301_do_meas st tr data sz =
          Some (i2c_status (i2c_master_send (client st) tr start_frame) 5, data, st,
                tr @ [I2C_Send start_frame])"
    using do_meas_start_failed by blast
  have d: "\<forall>ret data' st' tr'. hm3301_do_meas st tr data sz = Some (ret, data', st', tr') \<longrightarrow>
        client st' = client st \<and>
        (state st' = MEASURING \<longleftrightarrow>
           state st = MEASURING \<or> i2c_master_send (client st) tr start_frame = 5)"
    using do_meas_state by blast
  have e: "\<forall>ret st' tr'. cleaning_period_store st tr k len = Some (ret, st', tr') \<longrightarrow>
        st' = st \<or>
        (st' = st\<lparr>state := RESET\<rparr> \<and> ret = len \<and>
         (\<exists>t ev. tr' = t @ [I2C_Send [0xd3, 0x04], Msleep 300, I2C_Send [0x01, 0x04]] @ ev))"
    using cleaning_period_store_state by blast
  from do_cmd_reset_eq a b c d e show ?thesis by blast
qed


text \<open>
  The theorem on a transport where every transfer fails: the reset sequence sets \<open>RESET\<close>
  and returns the error; a measurement from \<open>RESET\<close> returns the error of the start
  command and stays in \<open>RESET\<close>. And a run of \<open>cleaning_period_store\<close> that ends in
  \<open>RESET\<close>, after the reset sequence.
\<close>

theorem device_state_transitions_witness:
  "hm3301_do_cmd_reset \<lparr>client = dead_client, state = MEASURING\<rparr> [] =
      Some (- 6, \<lparr>client = dead_client, state = RESET\<rparr>,
            [I2C_Send [0xd3, 0x04], Msleep 300, I2C_Send [0x01, 0x04]])
   \<and> hm3301_do_meas \<lparr>client = dead_client, state = RESET\<rparr> [] [7] 1 =
      Some (- 6, [7], \<lparr>client = dead_client, state = RESET\<rparr>,
            [I2C_Send [0x00, 0x10, 0x03, 0x00, 0xAC]])
   \<and> cleaning_period_store \<lparr>client = sim_client (\<lambda>n. []), state = MEASURING\<rparr> [] (Some 0) 7 =
      Some (7, \<lparr>client = sim_client (\<lambda>n. []), state = RESET\<rparr>,
        [I2C_Send [0x80, 0x04, 0, 0, 0x81, 0, 0, 0x81], Msleep 20, I2C_Send [0xd3, 0x04],
         Msleep 300, I2C_Send [0x01, 0x04]])"
proof -
  from device_state_transitions [of "\<lparr>client = dead_client, state = MEASURING\<rparr>" "[]" "[7]" 1 None 0]
  have r: "hm3301_do_cmd_reset \<lparr>client = dead_client, state = MEASURING\<rparr> [] =
      Some (- 6, \<lparr>client = dead_client, state = RESET\<rparr>,
            [I2C_Send [0xd3, 0x04], Msleep 300, I2C_Send [0x01, 0x04]])"
    by (simp add: dead_client_def i2c_status_def)
  from device_state_transitions [of "\<lparr>client = dead_client, state = RESET\<rparr>" "[]" "[7]" 1 None 0]
  have m: "hm3301_do_meas \<lparr>client = dead_client, state = RESET\<rparr> [] [7] 1 =
      Some (- 6, [7], \<lparr>client = dead_client, state = RESET\<rparr>,
            [I2C_Send [0x00, 0x10, 0x03, 0x00, 0xAC]])"
    by (simp add: start_frame_def dead_client_def i2c_status_def)
  have c: "cleaning_period_store \<lparr>client = sim_client (\<lambda>n. []), state = MEASURING\<rparr> [] (Some 0) 7 =
      Some (7, \<lparr>client = sim_client (\<lambda>n. []), state = RESET\<rparr>,
        [I2C_Send [0x80, 0x04, 0, 0, 0x81, 0, 0, 0x81], Msleep 20, I2C_Send [0xd3, 0x04],
         Msleep 300, I2C_Send [0x01, 0x04]])"
    by (simp add: cleaning_period_store_unfold sim_client_def i2c_status_def
        put_unaligned_be32_def crc8_zero Let_def)
  from r m c show ?thesis by simp
qed

section \<open>Setting the cleaning period\<close>

text \<open>
  C6, as the code has it. \<open>cleaning_period_store\<close> returns \<open>-EINVAL\<close> with no event at
  all (no transfer, no sleep) when the text is not a number or the value is outside 0 to
  604800. Otherwise it sends, in one transfer of 8 bytes, \<open>80 04\<close> and the value as a
  big-endian 32-bit number in two words, each followed by its checksum (the first byte
  of the value is 0, since the value is below \<open>2 ^ 24\<close>). If that transfer fails it
  returns the error at once: no sleep, no reset, the state as it was. If not it sleeps
  20 ms, runs the reset sequence (reset, 300 ms, stop), and returns \<open>len\<close> whether or
  not the reset failed: a failed reset only logs a warning.
\<close>

theorem cleaning_period_store_eq:
  "cleaning_period_store st tr None len = Some (- EINVAL, st, tr) \<and>
   cleaning_period_store st tr (Some val) len =
     (if val < 0 \<or> 604800 < val then Some (- EINVAL, st, tr)
      else
        (let b1 = word_of_int (val div 65536); b2 = word_of_int (val div 256);
             b3 = word_of_int val;
             frame = [0x80, 0x04,
                      0x00, b1, crc8 hm3301_crc8_table [0x00, b1] CRC8_INIT_VALUE,
                      b2, b3, crc8 hm3301_crc8_table [b2, b3] CRC8_INIT_VALUE];
             w = i2c_master_send (client st) tr frame;
             tr1 = tr @ [I2C_Send frame]
         in if w \<noteq> 8 then Some (if w < 0 then w else - EIO, st, tr1)
            else
              (let r = i2c_master_send (client st) (tr1 @ [Msleep 20]) [0xd3, 0x04]
               in Some (len, st\<lparr>state := RESET\<rparr>,
                    tr1 @ [Msleep 20, I2C_Send [0xd3, 0x04], Msleep 300, I2C_Send [0x01, 0x04]]
                      @ (if r \<noteq> 2
                         then [Dev_warn ''period changed but reads will return the old value'']
                         else [])))))"
proof (cases "val < 0 \<or> 604800 < val")
  case True
  then show ?thesis using cleaning_period_store_unfold [of st tr len val] by simp
next
  case False
  then have p: "put_unaligned_be32 (word_of_int val) =
     [0x00, word_of_int (val div 65536), word_of_int (val div 256), word_of_int val]"
    by (intro put_be32_period) simp_all
  show ?thesis
    using False cleaning_period_store_unfold [of st tr len val]
    by (simp add: p Let_def i2c_status_def EIO_def)
qed

text \<open>
  The theorem at 604801 (rejected, no event) and at 3600 = \<open>0x00000E10\<close> (sent as
  \<open>00 00 81 0E 10 AF\<close>, then the reset sequence).
\<close>

theorem cleaning_period_store_eq_witness:
  "cleaning_period_store \<lparr>client = sim_client (\<lambda>n. []), state = MEASURING\<rparr> [] (Some 604801) 7 =
     Some (- EINVAL, \<lparr>client = sim_client (\<lambda>n. []), state = MEASURING\<rparr>, [])
   \<and> cleaning_period_store \<lparr>client = sim_client (\<lambda>n. []), state = MEASURING\<rparr> [] (Some 3600) 5 =
     Some (5, \<lparr>client = sim_client (\<lambda>n. []), state = RESET\<rparr>,
       [I2C_Send [0x80, 0x04, 0x00, 0x00, 0x81, 0x0E, 0x10, 0xAF], Msleep 20,
        I2C_Send [0xd3, 0x04], Msleep 300, I2C_Send [0x01, 0x04]])"
proof -
  from cleaning_period_store_eq [of "\<lparr>client = sim_client (\<lambda>n. []), state = MEASURING\<rparr>" "[]" 7 604801]
  have a: "cleaning_period_store \<lparr>client = sim_client (\<lambda>n. []), state = MEASURING\<rparr> [] (Some 604801) 7 =
     Some (- EINVAL, \<lparr>client = sim_client (\<lambda>n. []), state = MEASURING\<rparr>, [])"
    by simp
  from cleaning_period_store_eq [of "\<lparr>client = sim_client (\<lambda>n. []), state = MEASURING\<rparr>" "[]" 5 3600]
  have b: "cleaning_period_store \<lparr>client = sim_client (\<lambda>n. []), state = MEASURING\<rparr> [] (Some 3600) 5 =
     Some (5, \<lparr>client = sim_client (\<lambda>n. []), state = RESET\<rparr>,
       [I2C_Send [0x80, 0x04, 0x00, 0x00, 0x81, 0x0E, 0x10, 0xAF], Msleep 20,
        I2C_Send [0xd3, 0x04], Msleep 300, I2C_Send [0x01, 0x04]])"
    by (simp add: sim_client_def low_byte_3600 crc8_zero crc8_3600 Let_def)
  from a b show ?thesis by simp
qed

text \<open>
  C6 as stated fails: a value inside the range is not always followed by the sleep and
  the reset. On a transport where the write fails, 3600 is encoded and sent, and the
  function returns the error with no sleep, no reset and the state unchanged.
\<close>

theorem cleaning_period_store_write_fails_counterexample:
  "map_option (\<lambda>(ret, st, tr). (ret, state st, tr))
     (cleaning_period_store \<lparr>client = dead_client, state = MEASURING\<rparr> [] (Some 3600) 5) =
   Some (- 6, MEASURING, [I2C_Send [0x80, 0x04, 0x00, 0x00, 0x81, 0x0E, 0x10, 0xAF]])"
  by code_simp

section \<open>A measurement, end to end\<close>

text \<open>
  C7, as the code has it. On a transport that acknowledges every transfer, answers the
  read of the ready flag with the checksummed bytes \<open>00 01\<close> and the read of the data
  with the checksummed bytes of the floats 12.34, 0.0, 3500.0 and 45.6,
  \<open>hm3301_do_meas\<close> for four channels succeeds and stores 1234, 0, 300000 and 4559:
  the third channel is clamped, and the fourth is 4559, not 4560, because the float
  nearest to 45.6 is a little below it and the decoder truncates.
\<close>

theorem do_meas_end_to_end:
  assumes tx: "\<forall>h bytes. i2c_master_send (client st) h bytes = int (length bytes)"
    and flag: "\<forall>h. i2c_master_recv (client st) h 3 = (3, checksummed [0x00, 0x01])"
    and rd: "\<forall>h. i2c_master_recv (client st) h 24 = (24, checksummed pm_floats)"
  shows "hm3301_do_meas st tr [a, b, c, d] 4 =
     Some (0, [1234, 0, 300000, 4559], st\<lparr>state := MEASURING\<rparr>,
           tr @ (if state st = RESET then [I2C_Send start_frame] else [])
              @ [I2C_Send [0x02, 0x02], I2C_Recv 3, I2C_Send [0x03, 0x00], I2C_Recv 24])"
proof (cases "state st")
  case RESET
  have "hm3301_do_meas_read (st\<lparr>state := MEASURING\<rparr>) (tr @ [I2C_Send start_frame]) [a, b, c, d] 4 =
     Some (0, [1234, 0, 300000, 4559],
           (tr @ [I2C_Send start_frame])
             @ [I2C_Send [0x02, 0x02], I2C_Recv 3, I2C_Send [0x03, 0x00], I2C_Recv 24])"
    using tx flag rd by (intro do_meas_read_pm_floats) simp_all
  moreover have "hm3301_do_cmd st tr HM3301_START_MEAS None 0 = Some (0, None, tr @ [I2C_Send start_frame])"
    using tx by (simp add: do_cmd_start i2c_status_def start_frame_def)
  ultimately show ?thesis using RESET
    by (simp add: hm3301_do_meas_def)
next
  case MEASURING
  then have "st\<lparr>state := MEASURING\<rparr> = st" by simp
  then show ?thesis using MEASURING do_meas_read_pm_floats [OF tx flag rd, of tr a b c d]
    by (simp add: hm3301_do_meas_def)
qed


text \<open>The theorem on the simulated transport, from \<open>RESET\<close>.\<close>

theorem do_meas_end_to_end_witness:
  "hm3301_do_meas
     \<lparr>client = sim_client (\<lambda>n. if n = 3 then checksummed [0x00, 0x01] else checksummed pm_floats),
      state = RESET\<rparr> [] [0, 0, 0, 0] 4 =
   Some (0, [1234, 0, 300000, 4559],
     \<lparr>client = sim_client (\<lambda>n. if n = 3 then checksummed [0x00, 0x01] else checksummed pm_floats),
      state = MEASURING\<rparr>,
     [I2C_Send [0x00, 0x10, 0x03, 0x00, 0xAC], I2C_Send [0x02, 0x02], I2C_Recv 3,
      I2C_Send [0x03, 0x00], I2C_Recv 24])"
  using do_meas_end_to_end [of
     "\<lparr>client = sim_client (\<lambda>n. if n = 3 then checksummed [0x00, 0x01] else checksummed pm_floats),
      state = RESET\<rparr>" "[]" 0 0 0 0]
  by (simp add: sim_client_def start_frame_def del: checksummed.simps)


text \<open>
  C7 as stated fails: the sample is not 1234, 0, 300000, 4560. The same run, evaluated:
  the fourth value is 4559.
\<close>

theorem do_meas_end_to_end_counterexample:
  "map_option (\<lambda>(ret, data, st, tr). (ret, data))
     (hm3301_do_meas
        \<lparr>client = sim_client (\<lambda>n. if n = 3 then checksummed [0x00, 0x01] else checksummed pm_floats),
         state = RESET\<rparr> [] [0, 0, 0, 0] 4)
   = Some (0, [1234, 0, 300000, 4559])"
  by code_simp

section \<open>The cleaning period, there and back\<close>

text \<open>
  C8. For a period \<open>p\<close> from 0 to 604800: the bytes that \<open>hm3301_do_cmd\<close> sends after
  the two command bytes of \<open>HM3301_AUTO_CLEANING_PERIOD\<close> are the big-endian bytes of
  \<open>p\<close> as two checksummed words; and when a transport answers the read of the period
  with these same bytes, \<open>cleaning_period_show\<close> validates them, strips the checksums
  and reads \<open>p\<close> back.
\<close>

theorem cleaning_period_round_trip:
  assumes p0: "0 \<le> p" and p1: "p \<le> 604800"
    and sent: "hm3301_do_cmd st tr HM3301_AUTO_CLEANING_PERIOD
                 (Some (put_unaligned_be32 (word_of_int p))) 0
               = Some (ret, d, tr @ [I2C_Send (c0 # c1 # payload)])"
    and tx: "i2c_master_send (client st') tr' [0x80, 0x04] = 2"
    and rx: "i2c_master_recv (client st') (tr' @ [I2C_Send [0x80, 0x04]]) 6 = (6, payload)"
  shows "payload = checksummed (put_unaligned_be32 (word_of_int p)) \<and>
         cleaning_period_show st' tr' = Some (Inr p, tr' @ [I2C_Send [0x80, 0x04], I2C_Recv 6])"
proof -
  let ?w = "word_of_int p :: u32"
  obtain a b c e where bytes: "put_unaligned_be32 ?w = [a, b, c, e]"
    by (simp add: put_unaligned_be32_def)
  have pl: "payload = checksummed [a, b, c, e]"
    using sent by (simp add: bytes do_cmd_period [of "[a, b, c, e]" 0] period_frame_def
        del: checksummed.simps)
  have rd: "hm3301_do_cmd st' tr' HM3301_READ_AUTO_CLEANING_PERIOD (Some (replicate 4 0)) (int (2 * 2)) =
    (case find (\<lambda>g. \<not> group_ok payload g) [0..<2] of
       None \<Rightarrow>
         Some (0, Some (groups_data payload 0 2 @ drop (2 * 2) (replicate 4 0)),
               tr' @ [I2C_Send (cmd_code HM3301_READ_AUTO_CLEANING_PERIOD), I2C_Recv (int (3 * 2))])
     | Some k \<Rightarrow>
         Some (- EIO, Some (groups_data payload 0 k @ drop (2 * k) (replicate 4 0)),
               tr' @ [I2C_Send (cmd_code HM3301_READ_AUTO_CLEANING_PERIOD), I2C_Recv (int (3 * 2)),
                     Dev_err ''data integrity check failed'']))"
    using tx rx pl by (intro do_cmd_read_groups) (simp_all add: read_cmd_def cmd_code_period)
  have ok: "find (\<lambda>g. \<not> group_ok payload g) [0..<2] = None"
    by (simp add: pl group_ok_def upt_rec [of _ "numeral _"] upt_rec [of _ "Suc _"])
  have gd: "groups_data payload 0 2 = [a, b, c, e]"
    by (simp add: pl groups_data_def upt_rec [of _ "numeral _"] upt_rec [of _ "Suc _"])
  have "hm3301_do_cmd st' tr' HM3301_READ_AUTO_CLEANING_PERIOD (Some (replicate 4 0)) 4 =
      Some (0, Some (put_unaligned_be32 ?w), tr' @ [I2C_Send [0x80, 0x04], I2C_Recv 6])"
    using rd by (simp add: ok gd bytes cmd_code_period)
  then have "cleaning_period_show st' tr' =
      Some (Inr (sint ?w), tr' @ [I2C_Send [0x80, 0x04], I2C_Recv 6])"
    by (simp add: cleaning_period_show_def get_put_be32)
  then show ?thesis using pl bytes by (simp add: sint_period [OF p0 p1])
qed


text \<open>The theorem at the longest period, 604800 s.\<close>

theorem cleaning_period_round_trip_witness:
  "(0 :: int) \<le> 604800 \<and>
   hm3301_do_cmd \<lparr>client = sim_client (\<lambda>n. []), state = RESET\<rparr> [] HM3301_AUTO_CLEANING_PERIOD
       (Some (put_unaligned_be32 (word_of_int 604800))) 0
     = Some (0, Some (put_unaligned_be32 (word_of_int 604800)),
         [I2C_Send (0x80 # 0x04 # checksummed (put_unaligned_be32 (word_of_int 604800)))]) \<and>
   cleaning_period_show
       \<lparr>client = sim_client (\<lambda>n. checksummed (put_unaligned_be32 (word_of_int 604800))),
        state = RESET\<rparr> []
     = Some (Inr 604800, [I2C_Send [0x80, 0x04], I2C_Recv 6])"
proof -
  let ?st = "\<lparr>client = sim_client (\<lambda>n. []), state = RESET\<rparr>"
  let ?st' = "\<lparr>client = sim_client (\<lambda>n. checksummed (put_unaligned_be32 (word_of_int 604800))),
               state = RESET\<rparr>"
  have sent: "hm3301_do_cmd ?st [] HM3301_AUTO_CLEANING_PERIOD
       (Some (put_unaligned_be32 (word_of_int 604800))) 0
     = Some (0, Some (put_unaligned_be32 (word_of_int 604800)),
         [] @ [I2C_Send (0x80 # 0x04 # checksummed (put_unaligned_be32 (word_of_int 604800)))])"
    by (simp add: do_cmd_period length_put_be32 period_frame_def sim_client_def i2c_status_def
        put_unaligned_be32_def)
  have tx: "i2c_master_send (client ?st') [] [0x80, 0x04] = 2"
    by (simp add: sim_client_def)
  have rx: "i2c_master_recv (client ?st') ([] @ [I2C_Send [0x80, 0x04]]) 6
      = (6, checksummed (put_unaligned_be32 (word_of_int 604800)))"
    by (simp add: sim_client_def)
  from cleaning_period_round_trip [OF _ _ sent tx rx] sent show ?thesis
    by simp
qed

section \<open>The size of a response\<close>

text \<open>
  C9. A read command for \<open>sz\<close> data bytes, \<open>sz\<close> even and at most 32 (the driver issues
  2 for the ready flag, 4 for the cleaning period, 4 to 16 for the measurements and 32
  for the serial number), with a caller's buffer of at least \<open>sz\<close> bytes: the inflated
  count \<open>sz + sz / 2\<close> is at most the 48 bytes of the frame buffer; the command is
  defined (no access outside a buffer); and once the command bytes are sent, the receive
  is requested with exactly \<open>sz + sz / 2\<close> bytes.
\<close>

theorem do_cmd_read_size:
  assumes rc: "read_cmd cmd" and s0: "0 \<le> sz" and s32: "sz \<le> 32" and ev: "even sz"
    and dl: "nat sz \<le> length d"
  shows "sz + sz sdiv 2 \<le> int HM3301_MAX_READ_SIZE \<and>
    (\<exists>ret d' ev. hm3301_do_cmd st tr cmd (Some d) sz
         = Some (ret, Some d', tr @ I2C_Send (cmd_code cmd) # ev) \<and>
       length d' = length d \<and>
       (if i2c_master_send (client st) tr (cmd_code cmd) = 2
        then ev = [I2C_Recv (sz + sz sdiv 2)]
           \<or> ev = [I2C_Recv (sz + sz sdiv 2), Dev_err ''data integrity check failed'']
        else ev = []))"
proof -
  define n where "n = nat (sz div 2)"
  have n: "sz = int (2 * n)" "n \<le> 16" "int (3 * n) = sz + sz sdiv 2"
    using s0 s32 ev unfolding n_def by (auto simp: signed_divide_int_def sgn_if)
  let ?c = "cmd_code cmd"
  let ?tr2 = "tr @ [I2C_Send ?c, I2C_Recv (int (3 * n))]"
  have fit: "sz + sz sdiv 2 \<le> int HM3301_MAX_READ_SIZE"
    using n by (simp add: HM3301_MAX_READ_SIZE_def)
  have sz3: "sz + sz div 2 = int (3 * n)" using n(1) by simp
  have unf: "hm3301_do_cmd st tr cmd (Some d) sz =
    (let r = i2c_master_send (client st) tr ?c in
     if r \<noteq> 2 then Some (i2c_status r 2, Some d, tr @ [I2C_Send ?c])
     else
       (let rr = i2c_master_recv (client st) (tr @ [I2C_Send ?c]) (int (3 * n)) in
        if fst rr \<noteq> int (3 * n) then Some (i2c_status (fst rr) (int (3 * n)), Some d, ?tr2)
        else hm3301_do_cmd_strip (rx_buf (?c @ replicate 46 0) (int (3 * n)) (snd rr))
               (int (3 * n)) 0 (Some d) 0 ?tr2))"
    using n(2) by (subst do_cmd_read [OF rc s0]) (simp_all add: sz3 Let_def del: of_nat_mult)
  show ?thesis
  proof (cases "i2c_master_send (client st) tr ?c = 2")
    case False
    then show ?thesis using fit unf by (simp add: Let_def)
  next
    case True
    let ?rr = "i2c_master_recv (client st) (tr @ [I2C_Send ?c]) (int (3 * n))"
    show ?thesis
    proof (cases "fst ?rr = int (3 * n)")
      case False
      then show ?thesis using fit unf True n(3) by (simp add: Let_def)
    next
      case rok: True
      let ?buf = "rx_buf (?c @ replicate 46 0) (int (3 * n)) (snd ?rr)"
      have "48 \<le> length ?buf"
        using length_rx_buf [of "?c @ replicate 46 0"] by (simp add: length_cmd_code)
      then have b: "3 * n \<le> length ?buf" using n(2) by simp
      have d: "2 * n \<le> length d" using dl n(1) by simp
      from strip_loop_defined [OF b d, of ?tr2]
      show ?thesis using fit unf True rok n(3) by (auto simp: Let_def simp del: of_nat_mult)
    qed
  qed
qed

text \<open>The largest response, the serial number: 32 data bytes, 48 bytes received.\<close>

theorem do_cmd_read_size_witness:
  "read_cmd HM3301_READ_SERIAL \<and> even (32 :: int) \<and>
   (32 :: int) + 32 sdiv 2 \<le> int HM3301_MAX_READ_SIZE \<and>
   hm3301_do_cmd \<lparr>client = sim_client (\<lambda>n. checksummed (replicate 32 0x30)), state = RESET\<rparr> []
       HM3301_READ_SERIAL (Some (replicate 32 0)) 32
     = Some (0, Some (replicate 32 0x30), [I2C_Send [0xd0, 0x33], I2C_Recv 48])"
proof -
  have run: "hm3301_do_cmd
       \<lparr>client = sim_client (\<lambda>n. checksummed (replicate 32 0x30)), state = RESET\<rparr> []
       HM3301_READ_SERIAL (Some (replicate 32 0)) 32
     = Some (0, Some (replicate 32 0x30), [I2C_Send [0xd0, 0x33], I2C_Recv 48])"
    by code_simp
  show ?thesis
    using run do_cmd_read_size [of HM3301_READ_SERIAL 32 "replicate 32 0"
      "\<lparr>client = sim_client (\<lambda>n. checksummed (replicate 32 0x30)), state = RESET\<rparr>" "[]"]
    by (simp add: read_cmd_def)
qed

section \<open>Commands that only write\<close>

text \<open>
  C10. A write-only command (start, stop, reset, fan cleaning, set cleaning period) with
  size 0 returns the caller's \<open>data\<close> as it was, whatever the transfer returns. The
  command is undefined only for \<open>HM3301_AUTO_CLEANING_PERIOD\<close> without four bytes to send.
\<close>

theorem do_cmd_write_only_frame:
  assumes "write_cmd cmd"
  shows "case hm3301_do_cmd st tr cmd data 0 of
           Some (ret, data', tr') \<Rightarrow> data' = data
         | None \<Rightarrow> cmd = HM3301_AUTO_CLEANING_PERIOD \<and>
                    (case data of None \<Rightarrow> True | Some d \<Rightarrow> length d < 4)"
proof (cases "cmd = HM3301_AUTO_CLEANING_PERIOD")
  case True
  show ?thesis
  proof (cases data)
    case None
    then show ?thesis using True by (simp add: do_cmd_period_undefined)
  next
    case (Some d)
    then show ?thesis using True
      by (cases "4 \<le> length d") (simp_all add: do_cmd_period do_cmd_period_undefined)
  qed
next
  case False
  then show ?thesis using assms
    by (auto simp: write_cmd_def do_cmd_start do_cmd_plain)
qed

text \<open>The start command with a buffer of the caller's.\<close>

theorem do_cmd_write_only_frame_witness:
  "write_cmd HM3301_START_MEAS \<and>
   hm3301_do_cmd \<lparr>client = sim_client (\<lambda>n. []), state = RESET\<rparr> [] HM3301_START_MEAS (Some [1, 2, 3]) 0
     = Some (0, Some [1, 2, 3], [I2C_Send [0x00, 0x10, 0x03, 0x00, 0xAC]])"
  using do_cmd_write_only_frame [where cmd = HM3301_START_MEAS
      and st = "\<lparr>client = sim_client (\<lambda>n. []), state = RESET\<rparr>" and tr = "[]" and data = "Some [1, 2, 3]"]
  by (simp add: write_cmd_def do_cmd_start start_frame_def sim_client_def i2c_status_def)

end
